theory Spec2Isabelle
  imports Main
begin

section \<open>Solidity values and revert reasons\<close>

text \<open>
  The ticketing system of \<^verbatim>\<open>trabajoTutelado/BC_TUTELADO\<close> is three Solidity 0.8
  contracts: \<^verbatim>\<open>EventRegistry\<close>, \<^verbatim>\<open>TicketNFT\<close> and \<^verbatim>\<open>TicketMarket\<close>.
  An \<^verbatim>\<open>address\<close> is a natural number, \<open>0\<close> being \<^verbatim>\<open>address(0)\<close>. Unsigned
  integers are naturals; Solidity 0.8 arithmetic is checked, so every \<^verbatim>\<open>+\<close>, \<^verbatim>\<open>++\<close> and
  \<^verbatim>\<open>*\<close> of the source is preceded in the model by the test that makes the EVM panic
  on overflow, and the one explicit narrowing conversion \<^verbatim>\<open>uint64(block.timestamp)\<close> is
  written as \<open>mod 2 ^ 64\<close>. Parameters range over all naturals, which include every value
  of the Solidity types.
\<close>

type_synonym address = nat

definition UINT256_MAX :: nat where
  "UINT256_MAX = 2 ^ 256 - 1"

definition UINT64_MAX :: nat where
  "UINT64_MAX = 2 ^ 64 - 1"

text \<open>
  One constructor per \<^verbatim>\<open>require\<close> message of the three contracts, one for the
  arithmetic panic, and the custom errors of the OpenZeppelin v5 base contracts
  (\<^verbatim>\<open>Ownable\<close>, \<^verbatim>\<open>ERC721\<close>) that the calls of the source can raise.
  \<open>Ether_transfer_failed\<close> is the revert of \<^verbatim>\<open>payable(seller).transfer\<close>.
\<close>

datatype revert =
    Nombre_obligatorio
  | Precio_base_gt_0
  | Total_tickets_gt_0
  | Factor_de_reventa_minimo_100
  | Limite_por_cartera_gt_total
  | Evento_inexistente
  | Solo_organizer_u_owner
  | Validador_no_valido
  | Market_cero
  | Market_ya_asignado
  | Solo_el_mercado_puede_llamar
  | Token_no_existe
  | Ticket_no_valido_para_marcar_como_usado
  | Evento_inactivo
  | Evento_ya_paso
  | Precio_incorrecto
  | No_quedan_tickets_disponibles
  | Limite_de_tickets_por_cartera_alcanzado
  | Debes_esperar_antes_de_volver_a_comprar
  | No_eres_el_dueno_del_ticket
  | Ticket_no_valido
  | Precio_debe_ser_gt_0
  | Sobrepasa_el_maximo_de_reventa
  | Listing_inactiva
  | Listing_inexistente
  | No_autorizado_para_validar
  | Panic_overflow
  | OwnableUnauthorizedAccount
  | OwnableInvalidOwner
  | ERC721NonexistentToken
  | ERC721InvalidReceiver
  | ERC721InvalidSender
  | ERC721InsufficientApproval
  | ERC721IncorrectOwner
  | Ether_transfer_failed

text \<open>The error taxonomy of the specification (section 7).\<close>

datatype spec_error =
    ValidationError
  | NotFoundError
  | AuthorizationError
  | StateConflictError
  | PaymentMismatchError

text \<open>
  Modelled from the spec: the source has only revert strings and no error classes; the
  grouping below follows the specification's wording (empty name, zero price, resale
  price above cap; unknown event, ticket or listing; caller lacks the role; capacity
  exhausted, cooldown not elapsed, per-wallet limit reached, ticket not in the expected
  state, listing already inactive; paid amount different from the required amount).
  A revert the specification does not place in a class has none.
\<close>

fun error_class :: "revert \<Rightarrow> spec_error option" where
  "error_class Nombre_obligatorio = Some ValidationError"
| "error_class Precio_base_gt_0 = Some ValidationError"
| "error_class Precio_debe_ser_gt_0 = Some ValidationError"
| "error_class Sobrepasa_el_maximo_de_reventa = Some ValidationError"
| "error_class Evento_inexistente = Some NotFoundError"
| "error_class Token_no_existe = Some NotFoundError"
| "error_class ERC721NonexistentToken = Some NotFoundError"
| "error_class Listing_inexistente = Some NotFoundError"
| "error_class Solo_organizer_u_owner = Some AuthorizationError"
| "error_class Solo_el_mercado_puede_llamar = Some AuthorizationError"
| "error_class No_autorizado_para_validar = Some AuthorizationError"
| "error_class No_eres_el_dueno_del_ticket = Some AuthorizationError"
| "error_class OwnableUnauthorizedAccount = Some AuthorizationError"
| "error_class No_quedan_tickets_disponibles = Some StateConflictError"
| "error_class Debes_esperar_antes_de_volver_a_comprar = Some StateConflictError"
| "error_class Limite_de_tickets_por_cartera_alcanzado = Some StateConflictError"
| "error_class Ticket_no_valido_para_marcar_como_usado = Some StateConflictError"
| "error_class Ticket_no_valido = Some StateConflictError"
| "error_class Listing_inactiva = Some StateConflictError"
| "error_class Precio_incorrecto = Some PaymentMismatchError"
| "error_class _ = None"

section \<open>Ownable (OpenZeppelin v5)\<close>

record Ownable =
  owner :: address

definition transferOwnership ::
  "'a Ownable_scheme \<Rightarrow> address \<Rightarrow> address \<Rightarrow> revert + 'a Ownable_scheme" where
  "transferOwnership c caller newOwner =
     (if caller \<noteq> owner c then Inl OwnableUnauthorizedAccount
      else if newOwner = 0 then Inl OwnableInvalidOwner
      else Inr (c\<lparr>owner := newOwner\<rparr>))"

definition renounceOwnership ::
  "'a Ownable_scheme \<Rightarrow> address \<Rightarrow> revert + 'a Ownable_scheme" where
  "renounceOwnership c caller =
     (if caller \<noteq> owner c then Inl OwnableUnauthorizedAccount
      else Inr (c\<lparr>owner := 0\<rparr>))"

section \<open>EventRegistry\<close>

record EventData =
  event_id :: nat
  name :: string
  date :: nat
  location :: string
  basePriceWei :: nat
  maxResaleFactor :: nat
  totalTickets :: nat
  metadataCid :: string
  organizer :: address
  active :: bool
  maxTicketsPerWallet :: nat
  walletCooldown :: nat

text \<open>The value of a storage slot of \<^verbatim>\<open>events\<close> that was never written.\<close>

definition zero_event :: EventData where
  "zero_event =
     \<lparr>event_id = 0, name = [], date = 0, location = [], basePriceWei = 0,
      maxResaleFactor = 0, totalTickets = 0, metadataCid = [], organizer = 0,
      active = False, maxTicketsPerWallet = 0, walletCooldown = 0\<rparr>"

record EventRegistry = Ownable +
  nextEventId :: nat
  events :: "nat \<Rightarrow> EventData"
  validators :: "nat \<Rightarrow> address \<Rightarrow> bool"

definition createEvent ::
  "EventRegistry \<Rightarrow> address \<Rightarrow> string \<Rightarrow> nat \<Rightarrow> string \<Rightarrow> nat \<Rightarrow> nat \<Rightarrow> nat \<Rightarrow> string
     \<Rightarrow> nat \<Rightarrow> nat \<Rightarrow> revert + (nat \<times> EventRegistry)" where
  "createEvent r caller nm dt loc price factor tickets cid perWallet cooldown =
     (if \<not> length nm > 0 then Inl Nombre_obligatorio
      else if \<not> price > 0 then Inl Precio_base_gt_0
      else if \<not> tickets > 0 then Inl Total_tickets_gt_0
      else if \<not> factor \<ge> 100 then Inl Factor_de_reventa_minimo_100
      else if perWallet > 0 \<and> \<not> perWallet \<le> tickets then Inl Limite_por_cartera_gt_total
      else if nextEventId r + 1 > UINT256_MAX then Inl Panic_overflow
      else
        let eid = nextEventId r;
            r1 = r\<lparr>nextEventId := nextEventId r + 1\<rparr>;
            r2 = r1\<lparr>events := (events r1)(eid :=
                   \<lparr>event_id = eid, name = nm, date = dt, location = loc,
                    basePriceWei = price, maxResaleFactor = factor, totalTickets = tickets,
                    metadataCid = cid, organizer = caller, active = True,
                    maxTicketsPerWallet = perWallet, walletCooldown = cooldown\<rparr>)\<rparr>
        in Inr (eid, r2))"

definition getEvent :: "EventRegistry \<Rightarrow> nat \<Rightarrow> EventData" where
  "getEvent r eid = events r eid"

definition setEventActive ::
  "EventRegistry \<Rightarrow> address \<Rightarrow> nat \<Rightarrow> bool \<Rightarrow> revert + EventRegistry" where
  "setEventActive r caller eid flag =
     (let evt = events r eid in
      if \<not> organizer evt \<noteq> 0 then Inl Evento_inexistente
      else if \<not> (caller = organizer evt \<or> caller = owner r) then Inl Solo_organizer_u_owner
      else Inr (r\<lparr>events := (events r)(eid := evt\<lparr>active := flag\<rparr>)\<rparr>))"

definition setValidator ::
  "EventRegistry \<Rightarrow> address \<Rightarrow> nat \<Rightarrow> address \<Rightarrow> bool \<Rightarrow> revert + EventRegistry" where
  "setValidator r caller eid validator isActive =
     (let evt = events r eid in
      if \<not> organizer evt \<noteq> 0 then Inl Evento_inexistente
      else if \<not> (caller = organizer evt \<or> caller = owner r) then Inl Solo_organizer_u_owner
      else if \<not> validator \<noteq> 0 then Inl Validador_no_valido
      else Inr (r\<lparr>validators := (validators r)(eid := (validators r eid)(validator := isActive))\<rparr>))"

definition isValidator :: "EventRegistry \<Rightarrow> nat \<Rightarrow> address \<Rightarrow> bool" where
  "isValidator r eid account = validators r eid account"

definition isOrganizerOrValidator :: "EventRegistry \<Rightarrow> nat \<Rightarrow> address \<Rightarrow> bool" where
  "isOrganizerOrValidator r eid account =
     (let evt = events r eid in
      if organizer evt = 0 then False
      else if account = organizer evt then True
      else validators r eid account)"

section \<open>TicketNFT\<close>

datatype TicketState = TicketState_None | Valid | Used | Cancelled

text \<open>
  \<open>owners\<close> is the \<^verbatim>\<open>_owners\<close> mapping of the ERC721 base contract. Approvals and
  balances of the base contract are not part of the state: the override of
  \<^verbatim>\<open>_isAuthorized\<close> ignores approvals, and nothing in the three contracts reads a
  balance.
\<close>

record TicketNFT = Ownable +
  nextTokenId :: nat
  ticketState :: "nat \<Rightarrow> TicketState"
  ticketEvent :: "nat \<Rightarrow> nat"
  owners :: "nat \<Rightarrow> address"
  market :: address

definition setMarket :: "TicketNFT \<Rightarrow> address \<Rightarrow> address \<Rightarrow> revert + TicketNFT" where
  "setMarket n caller m =
     (if caller \<noteq> owner n then Inl OwnableUnauthorizedAccount
      else if \<not> m \<noteq> 0 then Inl Market_cero
      else if \<not> market n = 0 then Inl Market_ya_asignado
      else Inr (n\<lparr>market := m\<rparr>))"

text \<open>
  \<^verbatim>\<open>_safeMint\<close> of ERC721: the receiver must not be \<^verbatim>\<open>address(0)\<close>, the token must
  not exist, and a receiving contract must accept the token in its
  \<^verbatim>\<open>onERC721Received\<close> hook. The hook's verdict is the parameter \<open>accepts\<close> (always
  \<open>True\<close> for an externally owned account).
\<close>

definition safeMint :: "TicketNFT \<Rightarrow> address \<Rightarrow> nat \<Rightarrow> bool \<Rightarrow> revert + TicketNFT" where
  "safeMint n to tid accepts =
     (if to = 0 then Inl ERC721InvalidReceiver
      else if owners n tid \<noteq> 0 then Inl ERC721InvalidSender
      else if \<not> accepts then Inl ERC721InvalidReceiver
      else Inr (n\<lparr>owners := (owners n)(tid := to)\<rparr>))"

definition mintTicket ::
  "TicketNFT \<Rightarrow> address \<Rightarrow> address \<Rightarrow> nat \<Rightarrow> bool \<Rightarrow> revert + (nat \<times> TicketNFT)" where
  "mintTicket n caller to eid accepts =
     (if \<not> caller = market n then Inl Solo_el_mercado_puede_llamar
      else if nextTokenId n + 1 > UINT256_MAX then Inl Panic_overflow
      else
        let tid = nextTokenId n + 1;
            n1 = n\<lparr>nextTokenId := tid\<rparr>
        in case safeMint n1 to tid accepts of
             Inl e \<Rightarrow> Inl e
           | Inr n2 \<Rightarrow>
               let n3 = n2\<lparr>ticketEvent := (ticketEvent n2)(tid := eid)\<rparr>;
                   n4 = n3\<lparr>ticketState := (ticketState n3)(tid := Valid)\<rparr>
               in Inr (tid, n4))"

definition markUsed :: "TicketNFT \<Rightarrow> address \<Rightarrow> nat \<Rightarrow> revert + TicketNFT" where
  "markUsed n caller tid =
     (if \<not> caller = market n then Inl Solo_el_mercado_puede_llamar
      else if \<not> owners n tid \<noteq> 0 then Inl Token_no_existe
      else if \<not> ticketState n tid = Valid then Inl Ticket_no_valido_para_marcar_como_usado
      else Inr (n\<lparr>ticketState := (ticketState n)(tid := Used)\<rparr>))"

definition isAuthorized :: "TicketNFT \<Rightarrow> address \<Rightarrow> address \<Rightarrow> nat \<Rightarrow> bool" where
  "isAuthorized n tokenOwner spender tid = (spender = market n)"

definition ownerOf :: "TicketNFT \<Rightarrow> nat \<Rightarrow> revert + address" where
  "ownerOf n tid = (if owners n tid = 0 then Inl ERC721NonexistentToken else Inr (owners n tid))"

text \<open>
  \<^verbatim>\<open>transferFrom\<close> of ERC721 v5 with the overridden \<^verbatim>\<open>_isAuthorized\<close>: the receiver
  is not \<^verbatim>\<open>address(0)\<close>; \<^verbatim>\<open>_update\<close> checks the authorization of a caller other than
  \<^verbatim>\<open>address(0)\<close>; the previous owner must be \<open>from\<close>.
\<close>

definition transferFrom ::
  "TicketNFT \<Rightarrow> address \<Rightarrow> address \<Rightarrow> address \<Rightarrow> nat \<Rightarrow> revert + TicketNFT" where
  "transferFrom n caller from to tid =
     (if to = 0 then Inl ERC721InvalidReceiver
      else
        let previousOwner = owners n tid in
        if caller \<noteq> 0 \<and> \<not> isAuthorized n previousOwner caller tid then
          (if previousOwner = 0 then Inl ERC721NonexistentToken
           else Inl ERC721InsufficientApproval)
        else if previousOwner \<noteq> from then Inl ERC721IncorrectOwner
        else Inr (n\<lparr>owners := (owners n)(tid := to)\<rparr>))"

definition safeTransferFrom ::
  "TicketNFT \<Rightarrow> address \<Rightarrow> address \<Rightarrow> address \<Rightarrow> nat \<Rightarrow> bool \<Rightarrow> revert + TicketNFT" where
  "safeTransferFrom n caller from to tid accepts =
     (case transferFrom n caller from to tid of
        Inl e \<Rightarrow> Inl e
      | Inr n1 \<Rightarrow> if \<not> accepts then Inl ERC721InvalidReceiver else Inr n1)"

section \<open>TicketMarket\<close>

record Listing =
  tokenId :: nat
  seller :: address
  priceWei :: nat
  listing_active :: bool

record BuyerState =
  bought :: nat
  lastBuyTs :: nat

record TicketMarket = Ownable +
  nextListingId :: nat
  listings :: "nat \<Rightarrow> Listing"
  mintedTicketsPerEvent :: "nat \<Rightarrow> nat"
  buyerState :: "nat \<Rightarrow> address \<Rightarrow> BuyerState"

text \<open>
  The deployed system: the three contracts, the address of the \<^verbatim>\<open>TicketMarket\<close>
  contract (\<^verbatim>\<open>address(this)\<close> in its code, \<^verbatim>\<open>msg.sender\<close> of its calls into the other
  two), and the ether the market has forwarded to sellers, latest first.
\<close>

record system =
  eventRegistry :: EventRegistry
  ticketNFT :: TicketNFT
  ticketMarket :: TicketMarket
  marketAddress :: address
  payments :: "(address \<times> nat) list"

text \<open>
  A function of \<^verbatim>\<open>TicketMarket\<close> runs against a working copy of the state. When a
  \<^verbatim>\<open>require\<close>, a panic or a nested call reverts, the result is \<open>Inl\<close> of the reason
  and of the working copy as it stood at that statement; the EVM then discards that copy
  (see \<open>apply_tx\<close>). Keeping it in the result is what lets the order of checks and writes
  be stated.
\<close>

type_synonym run = "(revert \<times> system) + system"

definition buyPrimary :: "system \<Rightarrow> address \<Rightarrow> nat \<Rightarrow> nat \<Rightarrow> bool \<Rightarrow> nat \<Rightarrow> run" where
  "buyPrimary s buyer paid now accepts eid =
     (let evt = getEvent (eventRegistry s) eid in
      if \<not> organizer evt \<noteq> 0 then Inl (Evento_inexistente, s)
      else if \<not> active evt then Inl (Evento_inactivo, s)
      else if \<not> now < date evt then Inl (Evento_ya_paso, s)
      else if \<not> paid = basePriceWei evt then Inl (Precio_incorrecto, s)
      else if \<not> mintedTicketsPerEvent (ticketMarket s) eid < totalTickets evt
        then Inl (No_quedan_tickets_disponibles, s)
      else
        let st = buyerState (ticketMarket s) eid buyer in
        if maxTicketsPerWallet evt > 0 \<and> bought st + 1 > UINT256_MAX
          then Inl (Panic_overflow, s)
        else if maxTicketsPerWallet evt > 0 \<and> \<not> bought st + 1 \<le> maxTicketsPerWallet evt
          then Inl (Limite_de_tickets_por_cartera_alcanzado, s)
        else if walletCooldown evt > 0 \<and> lastBuyTs st \<noteq> 0
                \<and> lastBuyTs st + walletCooldown evt > UINT64_MAX
          then Inl (Panic_overflow, s)
        else if walletCooldown evt > 0 \<and> lastBuyTs st \<noteq> 0
                \<and> \<not> now \<ge> lastBuyTs st + walletCooldown evt
          then Inl (Debes_esperar_antes_de_volver_a_comprar, s)
        else if mintedTicketsPerEvent (ticketMarket s) eid + 1 > UINT256_MAX
          then Inl (Panic_overflow, s)
        else
          let m = ticketMarket s;
              s1 = s\<lparr>ticketMarket := m\<lparr>mintedTicketsPerEvent :=
                     (mintedTicketsPerEvent m)(eid := mintedTicketsPerEvent m eid + 1)\<rparr>\<rparr>
          in case mintTicket (ticketNFT s1) (marketAddress s1) buyer eid accepts of
               Inl e \<Rightarrow> Inl (e, s1)
             | Inr (tid, n) \<Rightarrow>
                 let s2 = s1\<lparr>ticketNFT := n\<rparr>;
                     m2 = ticketMarket s2;
                     st2 = buyerState m2 eid buyer
                 in if bought st2 + 1 > UINT256_MAX then Inl (Panic_overflow, s2)
                    else
                      let s3 = s2\<lparr>ticketMarket := m2\<lparr>buyerState :=
                                 (buyerState m2)(eid := (buyerState m2 eid)(buyer :=
                                    st2\<lparr>bought := bought st2 + 1\<rparr>))\<rparr>\<rparr>;
                          m3 = ticketMarket s3;
                          st3 = buyerState m3 eid buyer;
                          s4 = s3\<lparr>ticketMarket := m3\<lparr>buyerState :=
                                 (buyerState m3)(eid := (buyerState m3 eid)(buyer :=
                                    st3\<lparr>lastBuyTs := now mod 2 ^ 64\<rparr>))\<rparr>\<rparr>
                      in Inr s4)"

definition listForResale :: "system \<Rightarrow> address \<Rightarrow> nat \<Rightarrow> nat \<Rightarrow> nat \<Rightarrow> run" where
  "listForResale s caller now tid price =
     (case ownerOf (ticketNFT s) tid of
        Inl e \<Rightarrow> Inl (e, s)
      | Inr tokenOwner \<Rightarrow>
        if \<not> tokenOwner = caller then Inl (No_eres_el_dueno_del_ticket, s)
        else if \<not> ticketState (ticketNFT s) tid = Valid then Inl (Ticket_no_valido, s)
        else if \<not> price > 0 then Inl (Precio_debe_ser_gt_0, s)
        else
          let eid = ticketEvent (ticketNFT s) tid;
              evt = getEvent (eventRegistry s) eid
          in
          if \<not> organizer evt \<noteq> 0 then Inl (Evento_inexistente, s)
          else if \<not> active evt then Inl (Evento_inactivo, s)
          else if \<not> now < date evt then Inl (Evento_ya_paso, s)
          else if basePriceWei evt * maxResaleFactor evt > UINT256_MAX
            then Inl (Panic_overflow, s)
          else
            let maxPrice = (basePriceWei evt * maxResaleFactor evt) div 100 in
            if \<not> price \<le> maxPrice then Inl (Sobrepasa_el_maximo_de_reventa, s)
            else
              (case transferFrom (ticketNFT s) (marketAddress s) caller (marketAddress s) tid of
                Inl e \<Rightarrow> Inl (e, s)
              | Inr n \<Rightarrow>
                  let s1 = s\<lparr>ticketNFT := n\<rparr>;
                      m = ticketMarket s1
                  in if nextListingId m + 1 > UINT256_MAX then Inl (Panic_overflow, s1)
                     else
                       let lid = nextListingId m;
                           s2 = s1\<lparr>ticketMarket := m\<lparr>nextListingId := nextListingId m + 1\<rparr>\<rparr>;
                           m2 = ticketMarket s2;
                           lst = \<lparr>tokenId = tid, seller = caller, priceWei = price,
                                  listing_active = True\<rparr>;
                           s3 = s2\<lparr>ticketMarket := m2\<lparr>listings := (listings m2)(lid := lst)\<rparr>\<rparr>
                       in Inr s3))"

text \<open>
  \<open>seller_accepts\<close> is the outcome of \<^verbatim>\<open>payable(lst.seller).transfer(msg.value)\<close>:
  the transfer reverts when the seller is a contract that refuses the ether.
\<close>

definition buyFromResale :: "system \<Rightarrow> address \<Rightarrow> nat \<Rightarrow> nat \<Rightarrow> bool \<Rightarrow> nat \<Rightarrow> run" where
  "buyFromResale s buyer paid now seller_accepts lid =
     (let lst = listings (ticketMarket s) lid in
      if \<not> listing_active lst then Inl (Listing_inactiva, s)
      else if \<not> seller lst \<noteq> 0 then Inl (Listing_inexistente, s)
      else if \<not> paid = priceWei lst then Inl (Precio_incorrecto, s)
      else
        let eid = ticketEvent (ticketNFT s) (tokenId lst);
            evt = getEvent (eventRegistry s) eid
        in
        if \<not> organizer evt \<noteq> 0 then Inl (Evento_inexistente, s)
        else if \<not> active evt then Inl (Evento_inactivo, s)
        else if \<not> now < date evt then Inl (Evento_ya_paso, s)
        else
          let m = ticketMarket s;
              s1 = s\<lparr>ticketMarket := m\<lparr>listings :=
                     (listings m)(lid := (listings m lid)\<lparr>listing_active := False\<rparr>)\<rparr>\<rparr>;
              lst1 = listings (ticketMarket s1) lid
          in
          if \<not> seller_accepts then Inl (Ether_transfer_failed, s1)
          else
            let s2 = s1\<lparr>payments := (seller lst1, paid) # payments s1\<rparr> in
            case transferFrom (ticketNFT s2) (marketAddress s2) (marketAddress s2) buyer
                   (tokenId lst1) of
              Inl e \<Rightarrow> Inl (e, s2)
            | Inr n \<Rightarrow> Inr (s2\<lparr>ticketNFT := n\<rparr>))"

definition markTicketUsed :: "system \<Rightarrow> address \<Rightarrow> nat \<Rightarrow> run" where
  "markTicketUsed s caller tid =
     (let eid = ticketEvent (ticketNFT s) tid;
          evt = getEvent (eventRegistry s) eid
      in
      if \<not> organizer evt \<noteq> 0 then Inl (Evento_inexistente, s)
      else
        let autorizado = (caller = organizer evt)
              \<or> isValidator (eventRegistry s) eid caller
              \<or> (caller = owner (ticketMarket s))
        in
        if \<not> autorizado then Inl (No_autorizado_para_validar, s)
        else
          case markUsed (ticketNFT s) (marketAddress s) tid of
            Inl e \<Rightarrow> Inl (e, s)
          | Inr n \<Rightarrow> Inr (s\<lparr>ticketNFT := n\<rparr>))"

section \<open>Transactions\<close>

text \<open>
  A transaction is a call of an external function of one of the three contracts by
  \<open>sender\<close> in a block with time \<open>timestamp\<close>. The ether sent with a payable call and
  the verdict of the contract the call hands control to (the token receiver's hook, the
  seller's receipt of ether) are arguments of the call. The hook's own side effects are
  outside the model: \<^verbatim>\<open>nonReentrant\<close> rejects its calls into \<^verbatim>\<open>TicketMarket\<close>, and
  the mutators of \<^verbatim>\<open>TicketNFT\<close> answer to the market only.
\<close>

datatype contract = Registry | NFT | Market

datatype call =
    CreateEvent string nat string nat nat nat string nat nat
  | SetEventActive nat bool
  | SetValidator nat address bool
  | SetMarket address
  | MintTicket address nat bool
  | MarkUsed nat
  | TransferFrom address address nat
  | SafeTransferFrom address address nat bool
  | BuyPrimary nat nat bool
  | ListForResale nat nat
  | BuyFromResale nat nat bool
  | MarkTicketUsed nat
  | TransferOwnership contract address
  | RenounceOwnership contract

record tx =
  sender :: address
  timestamp :: nat
  call :: call

definition on_registry :: "system \<Rightarrow> revert + EventRegistry \<Rightarrow> run" where
  "on_registry s res =
     (case res of Inl e \<Rightarrow> Inl (e, s) | Inr r \<Rightarrow> Inr (s\<lparr>eventRegistry := r\<rparr>))"

definition on_nft :: "system \<Rightarrow> revert + TicketNFT \<Rightarrow> run" where
  "on_nft s res =
     (case res of Inl e \<Rightarrow> Inl (e, s) | Inr n \<Rightarrow> Inr (s\<lparr>ticketNFT := n\<rparr>))"

definition on_market :: "system \<Rightarrow> revert + TicketMarket \<Rightarrow> run" where
  "on_market s res =
     (case res of Inl e \<Rightarrow> Inl (e, s) | Inr m \<Rightarrow> Inr (s\<lparr>ticketMarket := m\<rparr>))"

definition run_tx :: "system \<Rightarrow> tx \<Rightarrow> run" where
  "run_tx s t =
     (case call t of
        CreateEvent nm dt loc price factor tickets cid perWallet cooldown \<Rightarrow>
          on_registry s (map_sum id snd
            (createEvent (eventRegistry s) (sender t) nm dt loc price factor tickets cid
               perWallet cooldown))
      | SetEventActive eid flag \<Rightarrow>
          on_registry s (setEventActive (eventRegistry s) (sender t) eid flag)
      | SetValidator eid v flag \<Rightarrow>
          on_registry s (setValidator (eventRegistry s) (sender t) eid v flag)
      | SetMarket m \<Rightarrow> on_nft s (setMarket (ticketNFT s) (sender t) m)
      | MintTicket to eid accepts \<Rightarrow>
          on_nft s (map_sum id snd (mintTicket (ticketNFT s) (sender t) to eid accepts))
      | MarkUsed tid \<Rightarrow> on_nft s (markUsed (ticketNFT s) (sender t) tid)
      | TransferFrom from to tid \<Rightarrow>
          on_nft s (transferFrom (ticketNFT s) (sender t) from to tid)
      | SafeTransferFrom from to tid accepts \<Rightarrow>
          on_nft s (safeTransferFrom (ticketNFT s) (sender t) from to tid accepts)
      | BuyPrimary eid paid accepts \<Rightarrow> buyPrimary s (sender t) paid (timestamp t) accepts eid
      | ListForResale tid price \<Rightarrow> listForResale s (sender t) (timestamp t) tid price
      | BuyFromResale lid paid seller_accepts \<Rightarrow>
          buyFromResale s (sender t) paid (timestamp t) seller_accepts lid
      | MarkTicketUsed tid \<Rightarrow> markTicketUsed s (sender t) tid
      | TransferOwnership Registry a \<Rightarrow>
          on_registry s (transferOwnership (eventRegistry s) (sender t) a)
      | TransferOwnership NFT a \<Rightarrow> on_nft s (transferOwnership (ticketNFT s) (sender t) a)
      | TransferOwnership Market a \<Rightarrow>
          on_market s (transferOwnership (ticketMarket s) (sender t) a)
      | RenounceOwnership Registry \<Rightarrow>
          on_registry s (renounceOwnership (eventRegistry s) (sender t))
      | RenounceOwnership NFT \<Rightarrow> on_nft s (renounceOwnership (ticketNFT s) (sender t))
      | RenounceOwnership Market \<Rightarrow>
          on_market s (renounceOwnership (ticketMarket s) (sender t)))"

text \<open>A transaction that reverts leaves the state as it was; one that returns commits.\<close>

definition succeeds :: "system \<Rightarrow> tx \<Rightarrow> bool" where
  "succeeds s t = (case run_tx s t of Inl _ \<Rightarrow> False | Inr _ \<Rightarrow> True)"

definition apply_tx :: "system \<Rightarrow> tx \<Rightarrow> system" where
  "apply_tx s t = (case run_tx s t of Inl _ \<Rightarrow> s | Inr s' \<Rightarrow> s')"

fun exec :: "system \<Rightarrow> tx list \<Rightarrow> system" where
  "exec s [] = s"
| "exec s (t # ts) = exec (apply_tx s t) ts"

text \<open>
  The state after the three constructors have run: \<open>ro\<close>, \<open>no\<close> and \<open>mo\<close> own the
  registry, the token contract and the market, and \<open>ma\<close> is the market's address. All
  storage is zero, and \<^verbatim>\<open>TicketNFT.market\<close> is not yet assigned.
\<close>

definition deployed :: "address \<Rightarrow> address \<Rightarrow> address \<Rightarrow> address \<Rightarrow> system" where
  "deployed ro no mo ma =
     \<lparr>eventRegistry =
        \<lparr>owner = ro, nextEventId = 0, events = (\<lambda>_. zero_event), validators = (\<lambda>_ _. False)\<rparr>,
      ticketNFT =
        \<lparr>owner = no, nextTokenId = 0, ticketState = (\<lambda>_. TicketState_None),
         ticketEvent = (\<lambda>_. 0), owners = (\<lambda>_. 0), market = 0\<rparr>,
      ticketMarket =
        \<lparr>owner = mo, nextListingId = 0,
         listings = (\<lambda>_. \<lparr>tokenId = 0, seller = 0, priceWei = 0, listing_active = False\<rparr>),
         mintedTicketsPerEvent = (\<lambda>_. 0),
         buyerState = (\<lambda>_ _. \<lparr>bought = 0, lastBuyTs = 0\<rparr>)\<rparr>,
      marketAddress = ma,
      payments = []\<rparr>"

section \<open>Observations on a run and invariants of the state\<close>

text \<open>The transactions of a list that succeed when the list is run from \<open>s\<close>, in order.\<close>

fun successes :: "system \<Rightarrow> tx list \<Rightarrow> tx list" where
  "successes s [] = []"
| "successes s (t # ts) = (if succeeds s t then [t] else []) @ successes (apply_tx s t) ts"

definition is_primary_buy :: "nat \<Rightarrow> address \<Rightarrow> tx \<Rightarrow> bool" where
  "is_primary_buy eid w t =
     (case call t of BuyPrimary e _ _ \<Rightarrow> e = eid \<and> sender t = w | _ \<Rightarrow> False)"

definition is_resale_buy :: "nat \<Rightarrow> tx \<Rightarrow> bool" where
  "is_resale_buy lid t = (case call t of BuyFromResale l _ _ \<Rightarrow> l = lid | _ \<Rightarrow> False)"

definition is_mark_used :: "nat \<Rightarrow> tx \<Rightarrow> bool" where
  "is_mark_used tid t =
     (case call t of MarkUsed k \<Rightarrow> k = tid | MarkTicketUsed k \<Rightarrow> k = tid | _ \<Rightarrow> False)"

text \<open>Event ids from \<^verbatim>\<open>nextEventId\<close> on have never been written.\<close>

definition registry_inv :: "system \<Rightarrow> bool" where
  "registry_inv s =
     (\<forall>e. nextEventId (eventRegistry s) \<le> e \<longrightarrow> events (eventRegistry s) e = zero_event)"

definition capacity_inv :: "system \<Rightarrow> bool" where
  "capacity_inv s =
     (\<forall>e. mintedTicketsPerEvent (ticketMarket s) e \<le> totalTickets (events (eventRegistry s) e))"

definition wallet_inv :: "system \<Rightarrow> bool" where
  "wallet_inv s =
     (\<forall>e w.
        (nextEventId (eventRegistry s) \<le> e \<longrightarrow> buyerState (ticketMarket s) e w = \<lparr>bought = 0, lastBuyTs = 0\<rparr>)
        \<and> (0 < maxTicketsPerWallet (events (eventRegistry s) e) \<longrightarrow>
             bought (buyerState (ticketMarket s) e w) \<le> maxTicketsPerWallet (events (eventRegistry s) e)))"

text \<open>Token ids \<open>1 .. nextTokenId\<close> are the minted ones.\<close>

definition minted :: "TicketNFT \<Rightarrow> nat \<Rightarrow> bool" where
  "minted n tid = (1 \<le> tid \<and> tid \<le> nextTokenId n)"

definition nft_inv :: "system \<Rightarrow> bool" where
  "nft_inv s =
     (\<forall>tid. (minted (ticketNFT s) tid \<longrightarrow>
               owners (ticketNFT s) tid \<noteq> 0
               \<and> (ticketState (ticketNFT s) tid = Valid \<or> ticketState (ticketNFT s) tid = Used))
          \<and> (\<not> minted (ticketNFT s) tid \<longrightarrow> ticketState (ticketNFT s) tid = TicketState_None))"

definition listing_inv :: "system \<Rightarrow> bool" where
  "listing_inv s =
     (\<forall>lid. nextListingId (ticketMarket s) \<le> lid \<longrightarrow> \<not> listing_active (listings (ticketMarket s) lid))"

definition all_inv :: "system \<Rightarrow> bool" where
  "all_inv s = (registry_inv s \<and> capacity_inv s \<and> wallet_inv s \<and> nft_inv s \<and> listing_inv s)"

section \<open>A concrete run\<close>

text \<open>
  The scenario of the specification's section 8: the registry, the token contract and
  the market are owned by \<open>31\<close>, \<open>32\<close> and \<open>33\<close>, the market lives at address \<open>50\<close>;
  organizer \<open>10\<close> creates event \<open>0\<close> with base price 100, resale factor 130, capacity 2
  and at most one ticket per wallet; wallets \<open>20\<close> and \<open>21\<close> buy, \<open>20\<close> lists ticket 1 at
  125 and \<open>23\<close> buys the listing. A second event, \<open>1\<close>, has capacity 5, no per-wallet
  limit and a cooldown of 60 seconds.
\<close>

definition demo_create :: tx where
  "demo_create =
     \<lparr>sender = 10, timestamp = 5, call = CreateEvent ''Concert'' 1000 ''Hall'' 100 130 2 ''cid'' 1 0\<rparr>"

definition demo_create_cooldown :: tx where
  "demo_create_cooldown =
     \<lparr>sender = 10, timestamp = 5, call = CreateEvent ''Festival'' 1000 ''Park'' 100 130 5 ''cid'' 0 60\<rparr>"

definition demo_setMarket :: tx where
  "demo_setMarket = \<lparr>sender = 32, timestamp = 6, call = SetMarket 50\<rparr>"

definition demo_buy :: "address \<Rightarrow> nat \<Rightarrow> nat \<Rightarrow> tx" where
  "demo_buy w eid ts = \<lparr>sender = w, timestamp = ts, call = BuyPrimary eid 100 True\<rparr>"

definition demo_list :: tx where
  "demo_list = \<lparr>sender = 20, timestamp = 9, call = ListForResale 1 125\<rparr>"

definition demo_resale :: tx where
  "demo_resale = \<lparr>sender = 23, timestamp = 10, call = BuyFromResale 0 125 True\<rparr>"

definition demo_mark :: tx where
  "demo_mark = \<lparr>sender = 10, timestamp = 11, call = MarkTicketUsed 2\<rparr>"

definition demo_setup :: "tx list" where
  "demo_setup = [demo_create, demo_create_cooldown, demo_setMarket]"

definition demo_start :: system where
  "demo_start = exec (deployed 31 32 33 50) demo_setup"

definition demo_sold_out :: system where
  "demo_sold_out = exec (deployed 31 32 33 50) (demo_setup @ [demo_buy 20 0 7, demo_buy 21 0 8])"

definition demo_listed :: system where
  "demo_listed =
     exec (deployed 31 32 33 50) (demo_setup @ [demo_buy 20 0 7, demo_buy 21 0 8, demo_list])"

definition demo_used :: system where
  "demo_used =
     exec (deployed 31 32 33 50) (demo_setup @ [demo_buy 20 0 7, demo_buy 21 0 8, demo_mark])"

definition demo_resold :: system where
  "demo_resold =
     exec (deployed 31 32 33 50)
       (demo_setup @ [demo_buy 20 0 7, demo_buy 21 0 8, demo_list, demo_resale])"

definition demo_one_sold :: system where
  "demo_one_sold = exec (deployed 31 32 33 50) (demo_setup @ [demo_buy 20 0 7])"

text \<open>
  A third event, created alone after deployment, takes place far in the future: at
  \<open>2 ^ 70\<close> seconds, with a cooldown of 60 seconds.
\<close>

definition demo_create_far :: tx where
  "demo_create_far =
     \<lparr>sender = 10, timestamp = 5,
      call = CreateEvent ''Far'' (2 ^ 70) ''Orbit'' 100 130 5 ''cid'' 0 60\<rparr>"

definition demo_far :: system where
  "demo_far = exec (deployed 31 32 33 50) [demo_create_far, demo_setMarket]"

text \<open>
  Wallet \<open>20\<close> buys for the event with the cooldown at time 7, tries again at time 30
  and buys again at time 67.
\<close>

definition demo_cooldown_run :: "tx list" where
  "demo_cooldown_run = demo_setup @ [demo_buy 20 1 7, demo_buy 20 1 30, demo_buy 20 1 67]"

definition demo_cooled :: system where
  "demo_cooled = exec (deployed 31 32 33 50) (demo_setup @ [demo_buy 20 1 7])"

section \<open>What a successful call has checked and written\<close>

lemma mintTicket_InrD:
  assumes "mintTicket n caller to eid accepts = Inr (tid, n')"
  shows "caller = market n" and "tid = nextTokenId n + 1" and "to \<noteq> 0"
    and "owners n tid = 0" and "nextTokenId n + 1 \<le> UINT256_MAX"
    and "n' = n\<lparr>nextTokenId := tid, owners := (owners n)(tid := to),
               ticketEvent := (ticketEvent n)(tid := eid),
               ticketState := (ticketState n)(tid := Valid)\<rparr>"
  using assms
  by (auto simp: mintTicket_def safeMint_def Let_def split: if_splits sum.splits)

lemma markUsed_InrD:
  assumes "markUsed n caller tid = Inr n'"
  shows "caller = market n" and "owners n tid \<noteq> 0" and "ticketState n tid = Valid"
    and "n' = n\<lparr>ticketState := (ticketState n)(tid := Used)\<rparr>"
  using assms by (auto simp: markUsed_def split: if_splits)

lemma transferFrom_InrD:
  assumes "transferFrom n caller from to tid = Inr n'"
  shows "to \<noteq> 0" and "owners n tid = from" and "caller = 0 \<or> caller = market n"
    and "n' = n\<lparr>owners := (owners n)(tid := to)\<rparr>"
  using assms
  by (auto simp: transferFrom_def isAuthorized_def Let_def split: if_splits)

lemma buyPrimary_InrD:
  assumes "buyPrimary s buyer paid now accepts eid = Inr s'"
  shows "organizer (events (eventRegistry s) eid) \<noteq> 0"
    and "active (events (eventRegistry s) eid)"
    and "now < date (events (eventRegistry s) eid)"
    and "paid = basePriceWei (events (eventRegistry s) eid)"
    and "mintedTicketsPerEvent (ticketMarket s) eid < totalTickets (events (eventRegistry s) eid)"
    and "maxTicketsPerWallet (events (eventRegistry s) eid) > 0 \<Longrightarrow>
           bought (buyerState (ticketMarket s) eid buyer) + 1
             \<le> maxTicketsPerWallet (events (eventRegistry s) eid)"
    and "walletCooldown (events (eventRegistry s) eid) > 0 \<Longrightarrow>
         lastBuyTs (buyerState (ticketMarket s) eid buyer) \<noteq> 0 \<Longrightarrow>
           lastBuyTs (buyerState (ticketMarket s) eid buyer)
             + walletCooldown (events (eventRegistry s) eid) \<le> now"
    and "\<exists>tid n. mintTicket (ticketNFT s) (marketAddress s) buyer eid accepts = Inr (tid, n)
           \<and> s' = s\<lparr>ticketNFT := n,
                 ticketMarket := (ticketMarket s)\<lparr>
                   mintedTicketsPerEvent := (mintedTicketsPerEvent (ticketMarket s))
                     (eid := mintedTicketsPerEvent (ticketMarket s) eid + 1),
                   buyerState := (buyerState (ticketMarket s))
                     (eid := (buyerState (ticketMarket s) eid)
                        (buyer := (buyerState (ticketMarket s) eid buyer)\<lparr>
                                   bought := bought (buyerState (ticketMarket s) eid buyer) + 1,
                                   lastBuyTs := now mod 2 ^ 64\<rparr>))\<rparr>\<rparr>"
  using assms
  by (auto simp: buyPrimary_def getEvent_def Let_def split: if_splits sum.splits prod.splits)

lemma listForResale_InrD:
  assumes "listForResale s caller now tid price = Inr s'"
  shows "owners (ticketNFT s) tid = caller" and "caller \<noteq> 0"
    and "ticketState (ticketNFT s) tid = Valid" and "price > 0"
    and "organizer (events (eventRegistry s) (ticketEvent (ticketNFT s) tid)) \<noteq> 0"
    and "active (events (eventRegistry s) (ticketEvent (ticketNFT s) tid))"
    and "now < date (events (eventRegistry s) (ticketEvent (ticketNFT s) tid))"
    and "price \<le> (basePriceWei (events (eventRegistry s) (ticketEvent (ticketNFT s) tid))
                  * maxResaleFactor (events (eventRegistry s) (ticketEvent (ticketNFT s) tid))) div 100"
    and "nextListingId (ticketMarket s) + 1 \<le> UINT256_MAX"
    and "\<exists>n. transferFrom (ticketNFT s) (marketAddress s) caller (marketAddress s) tid = Inr n
           \<and> s' = s\<lparr>ticketNFT := n,
                 ticketMarket := (ticketMarket s)\<lparr>
                   nextListingId := nextListingId (ticketMarket s) + 1,
                   listings := (listings (ticketMarket s))(nextListingId (ticketMarket s) :=
                     \<lparr>tokenId = tid, seller = caller, priceWei = price, listing_active = True\<rparr>)\<rparr>\<rparr>"
  using assms
  by (auto simp: listForResale_def ownerOf_def getEvent_def Let_def split: if_splits sum.splits)

lemma buyFromResale_InrD:
  assumes "buyFromResale s buyer paid now seller_accepts lid = Inr s'"
  shows "listing_active (listings (ticketMarket s) lid)"
    and "seller (listings (ticketMarket s) lid) \<noteq> 0"
    and "paid = priceWei (listings (ticketMarket s) lid)"
    and "seller_accepts"
    and "\<exists>n. transferFrom (ticketNFT s) (marketAddress s) (marketAddress s) buyer
               (tokenId (listings (ticketMarket s) lid)) = Inr n
           \<and> s' = s\<lparr>ticketNFT := n,
                 payments := (seller (listings (ticketMarket s) lid), paid) # payments s,
                 ticketMarket := (ticketMarket s)\<lparr>
                   listings := (listings (ticketMarket s))
                     (lid := (listings (ticketMarket s) lid)\<lparr>listing_active := False\<rparr>)\<rparr>\<rparr>"
  using assms
  by (auto simp: buyFromResale_def getEvent_def Let_def split: if_splits sum.splits)

lemma markTicketUsed_InrD:
  assumes "markTicketUsed s caller tid = Inr s'"
  shows "organizer (events (eventRegistry s) (ticketEvent (ticketNFT s) tid)) \<noteq> 0"
    and "caller = organizer (events (eventRegistry s) (ticketEvent (ticketNFT s) tid))
          \<or> validators (eventRegistry s) (ticketEvent (ticketNFT s) tid) caller
          \<or> caller = owner (ticketMarket s)"
    and "\<exists>n. markUsed (ticketNFT s) (marketAddress s) tid = Inr n \<and> s' = s\<lparr>ticketNFT := n\<rparr>"
  using assms
  by (auto simp: markTicketUsed_def getEvent_def isValidator_def Let_def split: if_splits sum.splits)

section \<open>The invariants hold in every state a run reaches\<close>

lemmas plain_calls = run_tx_def on_registry_def on_nft_def on_market_def createEvent_def
  setEventActive_def setValidator_def setMarket_def transferOwnership_def renounceOwnership_def
  safeTransferFrom_def Let_def

lemma apply_tx_induct:
  assumes "P s" and "\<And>s'. run_tx s t = Inr s' \<Longrightarrow> P s'"
  shows "P (apply_tx s t)"
  using assms by (cases "run_tx s t") (auto simp: apply_tx_def)

lemma map_sum_snd_InrD: "map_sum id snd r = Inr x \<Longrightarrow> \<exists>a. r = Inr (a, x)"
  by (cases r) auto

lemma registry_inv_organizer:
  "registry_inv s \<Longrightarrow> organizer (events (eventRegistry s) e) \<noteq> 0 \<Longrightarrow> e < nextEventId (eventRegistry s)"
  by (rule ccontr) (auto simp: registry_inv_def zero_event_def not_less)

lemma registry_inv_fresh:
  "registry_inv s \<Longrightarrow> events (eventRegistry s) (nextEventId (eventRegistry s)) = zero_event"
  by (simp add: registry_inv_def)

lemma registry_inv_same:
  assumes "registry_inv s" and "nextEventId (eventRegistry s') = nextEventId (eventRegistry s)"
    and "events (eventRegistry s') = events (eventRegistry s)"
  shows "registry_inv s'"
  using assms by (simp add: registry_inv_def)

lemma capacity_inv_same:
  assumes "capacity_inv s" and "events (eventRegistry s') = events (eventRegistry s)"
    and "mintedTicketsPerEvent (ticketMarket s') = mintedTicketsPerEvent (ticketMarket s)"
  shows "capacity_inv s'"
  using assms by (simp add: capacity_inv_def)

lemma wallet_inv_same:
  assumes "wallet_inv s" and "events (eventRegistry s') = events (eventRegistry s)"
    and "nextEventId (eventRegistry s') = nextEventId (eventRegistry s)"
    and "buyerState (ticketMarket s') = buyerState (ticketMarket s)"
  shows "wallet_inv s'"
  using assms by (simp add: wallet_inv_def)

lemma nft_inv_same:
  assumes "nft_inv s" and "nextTokenId (ticketNFT s') = nextTokenId (ticketNFT s)"
    and "ticketState (ticketNFT s') = ticketState (ticketNFT s)"
    and "owners (ticketNFT s') = owners (ticketNFT s)"
  shows "nft_inv s'"
  using assms by (simp add: nft_inv_def minted_def)

lemma listing_inv_same:
  assumes "listing_inv s" and "nextListingId (ticketMarket s') = nextListingId (ticketMarket s)"
    and "listings (ticketMarket s') = listings (ticketMarket s)"
  shows "listing_inv s'"
  using assms by (simp add: listing_inv_def)

lemma registry_inv_step:
  assumes inv: "registry_inv s"
  shows "registry_inv (apply_tx s t)"
proof (rule apply_tx_induct)
  show "registry_inv s" by (rule inv)
next
  fix s'
  assume returned: "run_tx s t = Inr s'"
  show "registry_inv s'"
  proof (cases "call t")
    case (CreateEvent nm dt loc price factor tickets cid perWallet cooldown)
    with returned inv show ?thesis
      by (auto simp: plain_calls registry_inv_def split: if_splits)
  next
    case (SetEventActive eid flag)
    with returned inv show ?thesis
      by (auto simp: plain_calls registry_inv_def zero_event_def split: if_splits)
  next
    case (SetValidator eid v flag)
    with returned show ?thesis
      by (auto simp: plain_calls split: if_splits intro!: registry_inv_same[OF inv])
  next
    case (SetMarket m)
    with returned show ?thesis
      by (auto simp: plain_calls split: if_splits intro!: registry_inv_same[OF inv])
  next
    case (MintTicket dst eid acc)
    with returned show ?thesis
      by (auto simp: run_tx_def on_nft_def split: sum.splits dest!: map_sum_snd_InrD mintTicket_InrD(6) intro!: registry_inv_same[OF inv])
  next
    case (MarkUsed tid)
    with returned show ?thesis
      by (auto simp: run_tx_def on_nft_def split: sum.splits dest!: markUsed_InrD(4) intro!: registry_inv_same[OF inv])
  next
    case (TransferFrom src dst tid)
    with returned show ?thesis
      by (auto simp: run_tx_def on_nft_def split: sum.splits dest!: transferFrom_InrD(4) intro!: registry_inv_same[OF inv])
  next
    case (SafeTransferFrom src dst tid acc)
    with returned show ?thesis
      by (auto simp: run_tx_def on_nft_def safeTransferFrom_def split: sum.splits if_splits dest!: transferFrom_InrD(4) intro!: registry_inv_same[OF inv])
  next
    case (BuyPrimary eid paid acc)
    with returned show ?thesis
      by (auto simp: run_tx_def dest!: buyPrimary_InrD(8) intro!: registry_inv_same[OF inv])
  next
    case (ListForResale tid price)
    with returned show ?thesis
      by (auto simp: run_tx_def dest!: listForResale_InrD(10) intro!: registry_inv_same[OF inv])
  next
    case (BuyFromResale lid paid acc)
    with returned show ?thesis
      by (auto simp: run_tx_def dest!: buyFromResale_InrD(5) intro!: registry_inv_same[OF inv])
  next
    case (MarkTicketUsed tid)
    with returned show ?thesis
      by (auto simp: run_tx_def dest!: markTicketUsed_InrD(3) intro!: registry_inv_same[OF inv])
  next
    case (TransferOwnership c a)
    with returned show ?thesis
      by (cases c) (auto simp: plain_calls split: if_splits intro!: registry_inv_same[OF inv])
  next
    case (RenounceOwnership c)
    with returned show ?thesis
      by (cases c) (auto simp: plain_calls split: if_splits intro!: registry_inv_same[OF inv])
  qed
qed

lemma capacity_inv_step:
  assumes reg: "registry_inv s" and inv: "capacity_inv s"
  shows "capacity_inv (apply_tx s t)"
proof (rule apply_tx_induct)
  show "capacity_inv s" by (rule inv)
next
  fix s'
  assume returned: "run_tx s t = Inr s'"
  show "capacity_inv s'"
  proof (cases "call t")
    case (CreateEvent nm dt loc price factor tickets cid perWallet cooldown)
    with returned have s': "mintedTicketsPerEvent (ticketMarket s') = mintedTicketsPerEvent (ticketMarket s)"
      "\<And>e. e \<noteq> nextEventId (eventRegistry s) \<Longrightarrow> events (eventRegistry s') e = events (eventRegistry s) e"
      by (auto simp: plain_calls split: if_splits)
    have "mintedTicketsPerEvent (ticketMarket s) (nextEventId (eventRegistry s)) = 0"
      using inv registry_inv_fresh[OF reg]
      by (metis capacity_inv_def le_zero_eq zero_event_def EventData.select_convs(7))
    with s' inv show ?thesis
      unfolding capacity_inv_def by (metis le0)
  next
    case (SetEventActive eid flag)
    with returned inv show ?thesis
      by (auto simp: plain_calls capacity_inv_def split: if_splits)
  next
    case (SetValidator eid v flag)
    with returned show ?thesis
      by (auto simp: plain_calls split: if_splits intro!: capacity_inv_same[OF inv])
  next
    case (SetMarket m)
    with returned show ?thesis
      by (auto simp: plain_calls split: if_splits intro!: capacity_inv_same[OF inv])
  next
    case (MintTicket dst eid acc)
    with returned show ?thesis
      by (auto simp: run_tx_def on_nft_def split: sum.splits dest!: map_sum_snd_InrD mintTicket_InrD(6) intro!: capacity_inv_same[OF inv])
  next
    case (MarkUsed tid)
    with returned show ?thesis
      by (auto simp: run_tx_def on_nft_def split: sum.splits dest!: markUsed_InrD(4) intro!: capacity_inv_same[OF inv])
  next
    case (TransferFrom src dst tid)
    with returned show ?thesis
      by (auto simp: run_tx_def on_nft_def split: sum.splits dest!: transferFrom_InrD(4) intro!: capacity_inv_same[OF inv])
  next
    case (SafeTransferFrom src dst tid acc)
    with returned show ?thesis
      by (auto simp: run_tx_def on_nft_def safeTransferFrom_def split: sum.splits if_splits dest!: transferFrom_InrD(4) intro!: capacity_inv_same[OF inv])
  next
    case (BuyPrimary eid paid acc)
    with returned have b: "buyPrimary s (sender t) paid (timestamp t) acc eid = Inr s'"
      by (simp add: run_tx_def)
    from buyPrimary_InrD(5)[OF b] buyPrimary_InrD(8)[OF b] inv show ?thesis
      by (auto simp: capacity_inv_def)
  next
    case (ListForResale tid price)
    with returned show ?thesis
      by (auto simp: run_tx_def dest!: listForResale_InrD(10) intro!: capacity_inv_same[OF inv])
  next
    case (BuyFromResale lid paid acc)
    with returned show ?thesis
      by (auto simp: run_tx_def dest!: buyFromResale_InrD(5) intro!: capacity_inv_same[OF inv])
  next
    case (MarkTicketUsed tid)
    with returned show ?thesis
      by (auto simp: run_tx_def dest!: markTicketUsed_InrD(3) intro!: capacity_inv_same[OF inv])
  next
    case (TransferOwnership c a)
    with returned show ?thesis
      by (cases c) (auto simp: plain_calls split: if_splits intro!: capacity_inv_same[OF inv])
  next
    case (RenounceOwnership c)
    with returned show ?thesis
      by (cases c) (auto simp: plain_calls split: if_splits intro!: capacity_inv_same[OF inv])
  qed
qed

lemma wallet_inv_step:
  assumes reg: "registry_inv s" and inv: "wallet_inv s"
  shows "wallet_inv (apply_tx s t)"
proof (rule apply_tx_induct)
  show "wallet_inv s" by (rule inv)
next
  fix s'
  assume returned: "run_tx s t = Inr s'"
  show "wallet_inv s'"
  proof (cases "call t")
    case (CreateEvent nm dt loc price factor tickets cid perWallet cooldown)
    with returned have s': "buyerState (ticketMarket s') = buyerState (ticketMarket s)"
      "nextEventId (eventRegistry s') = Suc (nextEventId (eventRegistry s))"
      "\<And>e. e \<noteq> nextEventId (eventRegistry s) \<Longrightarrow> events (eventRegistry s') e = events (eventRegistry s) e"
      by (auto simp: plain_calls split: if_splits)
    have z: "\<And>w. bought (buyerState (ticketMarket s) (nextEventId (eventRegistry s)) w) = 0"
      using inv by (simp add: wallet_inv_def)
    show ?thesis
      unfolding wallet_inv_def
    proof (intro allI conjI impI)
      fix e w
      assume "nextEventId (eventRegistry s') \<le> e"
      with s' inv show "buyerState (ticketMarket s') e w = \<lparr>bought = 0, lastBuyTs = 0\<rparr>"
        by (simp add: wallet_inv_def)
    next
      fix e w
      assume m: "0 < maxTicketsPerWallet (events (eventRegistry s') e)"
      show "bought (buyerState (ticketMarket s') e w) \<le> maxTicketsPerWallet (events (eventRegistry s') e)"
      proof (cases "e = nextEventId (eventRegistry s)")
        case True
        with z s' show ?thesis by simp
      next
        case False
        with m s' inv show ?thesis by (simp add: wallet_inv_def)
      qed
    qed
  next
    case (SetEventActive eid flag)
    with returned inv show ?thesis
      by (auto simp: plain_calls wallet_inv_def split: if_splits)
  next
    case (SetValidator eid v flag)
    with returned show ?thesis
      by (auto simp: plain_calls split: if_splits intro!: wallet_inv_same[OF inv])
  next
    case (SetMarket m)
    with returned show ?thesis
      by (auto simp: plain_calls split: if_splits intro!: wallet_inv_same[OF inv])
  next
    case (MintTicket dst eid acc)
    with returned show ?thesis
      by (auto simp: run_tx_def on_nft_def split: sum.splits dest!: map_sum_snd_InrD mintTicket_InrD(6) intro!: wallet_inv_same[OF inv])
  next
    case (MarkUsed tid)
    with returned show ?thesis
      by (auto simp: run_tx_def on_nft_def split: sum.splits dest!: markUsed_InrD(4) intro!: wallet_inv_same[OF inv])
  next
    case (TransferFrom src dst tid)
    with returned show ?thesis
      by (auto simp: run_tx_def on_nft_def split: sum.splits dest!: transferFrom_InrD(4) intro!: wallet_inv_same[OF inv])
  next
    case (SafeTransferFrom src dst tid acc)
    with returned show ?thesis
      by (auto simp: run_tx_def on_nft_def safeTransferFrom_def split: sum.splits if_splits dest!: transferFrom_InrD(4) intro!: wallet_inv_same[OF inv])
  next
    case (BuyPrimary eid paid acc)
    with returned have b: "buyPrimary s (sender t) paid (timestamp t) acc eid = Inr s'"
      by (simp add: run_tx_def)
    have "eid < nextEventId (eventRegistry s)"
      using registry_inv_organizer[OF reg buyPrimary_InrD(1)[OF b]] .
    with buyPrimary_InrD(6)[OF b] buyPrimary_InrD(8)[OF b] inv show ?thesis
      by (auto simp: wallet_inv_def)
  next
    case (ListForResale tid price)
    with returned show ?thesis
      by (auto simp: run_tx_def dest!: listForResale_InrD(10) intro!: wallet_inv_same[OF inv])
  next
    case (BuyFromResale lid paid acc)
    with returned show ?thesis
      by (auto simp: run_tx_def dest!: buyFromResale_InrD(5) intro!: wallet_inv_same[OF inv])
  next
    case (MarkTicketUsed tid)
    with returned show ?thesis
      by (auto simp: run_tx_def dest!: markTicketUsed_InrD(3) intro!: wallet_inv_same[OF inv])
  next
    case (TransferOwnership c a)
    with returned show ?thesis
      by (cases c) (auto simp: plain_calls split: if_splits intro!: wallet_inv_same[OF inv])
  next
    case (RenounceOwnership c)
    with returned show ?thesis
      by (cases c) (auto simp: plain_calls split: if_splits intro!: wallet_inv_same[OF inv])
  qed
qed

lemma nft_inv_Valid_minted:
  "nft_inv s \<Longrightarrow> ticketState (ticketNFT s) tid \<noteq> TicketState_None \<Longrightarrow> minted (ticketNFT s) tid"
  unfolding nft_inv_def by blast

lemma nft_invD:
  assumes "nft_inv s"
  shows "minted (ticketNFT s) tid \<Longrightarrow> owners (ticketNFT s) tid \<noteq> 0"
    and "minted (ticketNFT s) tid \<Longrightarrow>
           ticketState (ticketNFT s) tid = Valid \<or> ticketState (ticketNFT s) tid = Used"
    and "\<not> minted (ticketNFT s) tid \<Longrightarrow> ticketState (ticketNFT s) tid = TicketState_None"
  using assms unfolding nft_inv_def by blast+

lemma nft_invI:
  assumes "\<And>tid. minted (ticketNFT s) tid \<Longrightarrow> owners (ticketNFT s) tid \<noteq> 0"
    and "\<And>tid. minted (ticketNFT s) tid \<Longrightarrow>
           ticketState (ticketNFT s) tid = Valid \<or> ticketState (ticketNFT s) tid = Used"
    and "\<And>tid. \<not> minted (ticketNFT s) tid \<Longrightarrow> ticketState (ticketNFT s) tid = TicketState_None"
  shows "nft_inv s"
  using assms unfolding nft_inv_def by blast

lemma nft_inv_mintTicket:
  assumes inv: "nft_inv s" and m: "mintTicket (ticketNFT s) caller to eid acc = Inr (k, n)"
    and s': "ticketNFT s' = n"
  shows "nft_inv s'"
proof -
  note k = mintTicket_InrD(2)[OF m] and to = mintTicket_InrD(3)[OF m]
  have n: "nextTokenId n = k" "owners n = (owners (ticketNFT s))(k := to)"
    "ticketState n = (ticketState (ticketNFT s))(k := Valid)"
    using mintTicket_InrD(6)[OF m] by simp_all
  have mk: "minted n tid \<longleftrightarrow> tid = k \<or> minted (ticketNFT s) tid" for tid
    using k n(1) by (auto simp: minted_def)
  show ?thesis
  proof (rule nft_invI)
    fix tid assume "minted (ticketNFT s') tid"
    then show "owners (ticketNFT s') tid \<noteq> 0"
      using nft_invD(1)[OF inv, of tid] to by (auto simp: s' mk n)
  next
    fix tid assume "minted (ticketNFT s') tid"
    then show "ticketState (ticketNFT s') tid = Valid \<or> ticketState (ticketNFT s') tid = Used"
      using nft_invD(2)[OF inv, of tid] by (auto simp: s' mk n)
  next
    fix tid assume "\<not> minted (ticketNFT s') tid"
    then show "ticketState (ticketNFT s') tid = TicketState_None"
      using nft_invD(3)[OF inv, of tid] by (auto simp: s' mk n)
  qed
qed

lemma nft_inv_markUsed:
  assumes inv: "nft_inv s" and m: "markUsed (ticketNFT s) caller k = Inr n" and s': "ticketNFT s' = n"
  shows "nft_inv s'"
proof -
  have n: "nextTokenId n = nextTokenId (ticketNFT s)" "owners n = owners (ticketNFT s)"
    "ticketState n = (ticketState (ticketNFT s))(k := Used)"
    using markUsed_InrD(4)[OF m] by simp_all
  have mk: "minted n tid \<longleftrightarrow> minted (ticketNFT s) tid" for tid
    using n(1) by (simp add: minted_def)
  have k: "minted (ticketNFT s) k"
    using nft_inv_Valid_minted[OF inv, of k] markUsed_InrD(3)[OF m] by simp
  show ?thesis
  proof (rule nft_invI)
    fix tid assume "minted (ticketNFT s') tid"
    then show "owners (ticketNFT s') tid \<noteq> 0"
      using nft_invD(1)[OF inv, of tid] by (simp add: s' mk n)
  next
    fix tid assume "minted (ticketNFT s') tid"
    then show "ticketState (ticketNFT s') tid = Valid \<or> ticketState (ticketNFT s') tid = Used"
      using nft_invD(2)[OF inv, of tid] by (simp add: s' mk n)
  next
    fix tid assume "\<not> minted (ticketNFT s') tid"
    then show "ticketState (ticketNFT s') tid = TicketState_None"
      using nft_invD(3)[OF inv, of tid] k by (auto simp: s' mk n)
  qed
qed

lemma nft_inv_transferFrom:
  assumes inv: "nft_inv s" and m: "transferFrom (ticketNFT s) caller src dst k = Inr n"
    and s': "ticketNFT s' = n"
  shows "nft_inv s'"
proof -
  note dst = transferFrom_InrD(1)[OF m]
  have n: "nextTokenId n = nextTokenId (ticketNFT s)" "owners n = (owners (ticketNFT s))(k := dst)"
    "ticketState n = ticketState (ticketNFT s)"
    using transferFrom_InrD(4)[OF m] by simp_all
  have mk: "minted n tid \<longleftrightarrow> minted (ticketNFT s) tid" for tid
    using n(1) by (simp add: minted_def)
  show ?thesis
  proof (rule nft_invI)
    fix tid assume "minted (ticketNFT s') tid"
    then show "owners (ticketNFT s') tid \<noteq> 0"
      using nft_invD(1)[OF inv, of tid] dst by (simp add: s' mk n)
  next
    fix tid assume "minted (ticketNFT s') tid"
    then show "ticketState (ticketNFT s') tid = Valid \<or> ticketState (ticketNFT s') tid = Used"
      using nft_invD(2)[OF inv, of tid] by (simp add: s' mk n)
  next
    fix tid assume "\<not> minted (ticketNFT s') tid"
    then show "ticketState (ticketNFT s') tid = TicketState_None"
      using nft_invD(3)[OF inv, of tid] by (simp add: s' mk n)
  qed
qed

lemma nft_inv_step:
  assumes inv: "nft_inv s"
  shows "nft_inv (apply_tx s t)"
proof (rule apply_tx_induct)
  show "nft_inv s" by (rule inv)
next
  fix s'
  assume returned: "run_tx s t = Inr s'"
  show "nft_inv s'"
  proof (cases "call t")
    case (CreateEvent nm dt loc price factor tickets cid perWallet cooldown)
    with returned show ?thesis
      by (auto simp: plain_calls split: if_splits intro!: nft_inv_same[OF inv])
  next
    case (SetEventActive eid flag)
    with returned show ?thesis
      by (auto simp: plain_calls split: if_splits intro!: nft_inv_same[OF inv])
  next
    case (SetValidator eid v flag)
    with returned show ?thesis
      by (auto simp: plain_calls split: if_splits intro!: nft_inv_same[OF inv])
  next
    case (SetMarket m)
    with returned show ?thesis
      by (auto simp: plain_calls split: if_splits intro!: nft_inv_same[OF inv])
  next
    case (MintTicket dst eid acc)
    with returned obtain tid n where "mintTicket (ticketNFT s) (sender t) dst eid acc = Inr (tid, n)"
      and "ticketNFT s' = n"
      by (auto simp: run_tx_def on_nft_def split: sum.splits dest!: map_sum_snd_InrD)
    then show ?thesis by (rule nft_inv_mintTicket[OF inv])
  next
    case (MarkUsed tid)
    with returned obtain n where "markUsed (ticketNFT s) (sender t) tid = Inr n"
      and "ticketNFT s' = n"
      by (auto simp: run_tx_def on_nft_def split: sum.splits)
    then show ?thesis by (rule nft_inv_markUsed[OF inv])
  next
    case (TransferFrom src dst tid)
    with returned obtain n where "transferFrom (ticketNFT s) (sender t) src dst tid = Inr n"
      and "ticketNFT s' = n"
      by (auto simp: run_tx_def on_nft_def split: sum.splits)
    then show ?thesis by (rule nft_inv_transferFrom[OF inv])
  next
    case (SafeTransferFrom src dst tid acc)
    with returned obtain n where "transferFrom (ticketNFT s) (sender t) src dst tid = Inr n"
      and "ticketNFT s' = n"
      by (auto simp: run_tx_def on_nft_def safeTransferFrom_def split: sum.splits if_splits)
    then show ?thesis by (rule nft_inv_transferFrom[OF inv])
  next
    case (BuyPrimary eid paid acc)
    with returned have b: "buyPrimary s (sender t) paid (timestamp t) acc eid = Inr s'"
      by (simp add: run_tx_def)
    from buyPrimary_InrD(8)[OF b] obtain tid n
      where "mintTicket (ticketNFT s) (marketAddress s) (sender t) eid acc = Inr (tid, n)"
        and "ticketNFT s' = n" by auto
    then show ?thesis by (rule nft_inv_mintTicket[OF inv])
  next
    case (ListForResale tid price)
    with returned have b: "listForResale s (sender t) (timestamp t) tid price = Inr s'"
      by (simp add: run_tx_def)
    from listForResale_InrD(10)[OF b] obtain n
      where "transferFrom (ticketNFT s) (marketAddress s) (sender t) (marketAddress s) tid = Inr n"
        and "ticketNFT s' = n" by auto
    then show ?thesis by (rule nft_inv_transferFrom[OF inv])
  next
    case (BuyFromResale lid paid acc)
    with returned have b: "buyFromResale s (sender t) paid (timestamp t) acc lid = Inr s'"
      by (simp add: run_tx_def)
    from buyFromResale_InrD(5)[OF b] obtain n
      where "transferFrom (ticketNFT s) (marketAddress s) (marketAddress s) (sender t)
               (tokenId (listings (ticketMarket s) lid)) = Inr n"
        and "ticketNFT s' = n" by auto
    then show ?thesis by (rule nft_inv_transferFrom[OF inv])
  next
    case (MarkTicketUsed tid)
    with returned have b: "markTicketUsed s (sender t) tid = Inr s'"
      by (simp add: run_tx_def)
    from markTicketUsed_InrD(3)[OF b] obtain n
      where "markUsed (ticketNFT s) (marketAddress s) tid = Inr n" and "ticketNFT s' = n" by auto
    then show ?thesis by (rule nft_inv_markUsed[OF inv])
  next
    case (TransferOwnership c a)
    with returned show ?thesis
      by (cases c) (auto simp: plain_calls split: if_splits intro!: nft_inv_same[OF inv])
  next
    case (RenounceOwnership c)
    with returned show ?thesis
      by (cases c) (auto simp: plain_calls split: if_splits intro!: nft_inv_same[OF inv])
  qed
qed

lemma listing_inv_step:
  assumes inv: "listing_inv s"
  shows "listing_inv (apply_tx s t)"
proof (rule apply_tx_induct)
  show "listing_inv s" by (rule inv)
next
  fix s'
  assume returned: "run_tx s t = Inr s'"
  show "listing_inv s'"
  proof (cases "call t")
    case (CreateEvent nm dt loc price factor tickets cid perWallet cooldown)
    with returned show ?thesis
      by (auto simp: plain_calls split: if_splits intro!: listing_inv_same[OF inv])
  next
    case (SetEventActive eid flag)
    with returned show ?thesis
      by (auto simp: plain_calls split: if_splits intro!: listing_inv_same[OF inv])
  next
    case (SetValidator eid v flag)
    with returned show ?thesis
      by (auto simp: plain_calls split: if_splits intro!: listing_inv_same[OF inv])
  next
    case (SetMarket m)
    with returned show ?thesis
      by (auto simp: plain_calls split: if_splits intro!: listing_inv_same[OF inv])
  next
    case (MintTicket dst eid acc)
    with returned show ?thesis
      by (auto simp: run_tx_def on_nft_def split: sum.splits dest!: map_sum_snd_InrD mintTicket_InrD(6) intro!: listing_inv_same[OF inv])
  next
    case (MarkUsed tid)
    with returned show ?thesis
      by (auto simp: run_tx_def on_nft_def split: sum.splits dest!: markUsed_InrD(4) intro!: listing_inv_same[OF inv])
  next
    case (TransferFrom src dst tid)
    with returned show ?thesis
      by (auto simp: run_tx_def on_nft_def split: sum.splits dest!: transferFrom_InrD(4) intro!: listing_inv_same[OF inv])
  next
    case (SafeTransferFrom src dst tid acc)
    with returned show ?thesis
      by (auto simp: run_tx_def on_nft_def safeTransferFrom_def split: sum.splits if_splits dest!: transferFrom_InrD(4) intro!: listing_inv_same[OF inv])
  next
    case (BuyPrimary eid paid acc)
    with returned show ?thesis
      by (auto simp: run_tx_def dest!: buyPrimary_InrD(8) intro!: listing_inv_same[OF inv])
  next
    case (ListForResale tid price)
    with returned inv show ?thesis
      by (auto simp: run_tx_def listing_inv_def dest!: listForResale_InrD(10))
  next
    case (BuyFromResale lid paid acc)
    with returned inv show ?thesis
      by (auto simp: run_tx_def listing_inv_def split: if_splits dest!: buyFromResale_InrD(5))
  next
    case (MarkTicketUsed tid)
    with returned show ?thesis
      by (auto simp: run_tx_def dest!: markTicketUsed_InrD(3) intro!: listing_inv_same[OF inv])
  next
    case (TransferOwnership c a)
    with returned show ?thesis
      by (cases c) (auto simp: plain_calls split: if_splits intro!: listing_inv_same[OF inv])
  next
    case (RenounceOwnership c)
    with returned show ?thesis
      by (cases c) (auto simp: plain_calls split: if_splits intro!: listing_inv_same[OF inv])
  qed
qed

lemma deployed_invs:
  "registry_inv (deployed ro no mo ma)" "capacity_inv (deployed ro no mo ma)"
  "wallet_inv (deployed ro no mo ma)" "nft_inv (deployed ro no mo ma)"
  "listing_inv (deployed ro no mo ma)"
  by (simp_all add: deployed_def registry_inv_def capacity_inv_def wallet_inv_def nft_inv_def
        listing_inv_def minted_def zero_event_def)

lemma all_inv_step: "all_inv s \<Longrightarrow> all_inv (apply_tx s t)"
  by (simp add: all_inv_def registry_inv_step capacity_inv_step wallet_inv_step nft_inv_step
        listing_inv_step)

lemma all_inv_exec: "all_inv s \<Longrightarrow> all_inv (exec s txs)"
  by (induction txs arbitrary: s) (simp_all add: all_inv_step)

lemma all_inv_deployed: "all_inv (deployed ro no mo ma)"
  by (simp add: all_inv_def deployed_invs)

lemma all_inv_reached: "all_inv (exec (deployed ro no mo ma) txs)"
  by (rule all_inv_exec[OF all_inv_deployed])

section \<open>Evaluating the concrete run\<close>

lemmas demo_defs = demo_create_def demo_create_cooldown_def demo_setMarket_def demo_buy_def
  demo_list_def demo_resale_def demo_mark_def demo_setup_def demo_start_def demo_sold_out_def
  demo_listed_def demo_used_def demo_resold_def demo_one_sold_def demo_create_far_def
  demo_far_def demo_cooldown_run_def demo_cooled_def

lemmas eval_defs = deployed_def apply_tx_def succeeds_def run_tx_def on_registry_def on_nft_def
  on_market_def createEvent_def setEventActive_def setValidator_def setMarket_def getEvent_def
  isValidator_def mintTicket_def safeMint_def markUsed_def transferFrom_def safeTransferFrom_def
  ownerOf_def isAuthorized_def buyPrimary_def listForResale_def buyFromResale_def
  markTicketUsed_def UINT256_MAX_def UINT64_MAX_def zero_event_def Let_def

lemma exec_append: "exec s (xs @ ys) = exec (exec s xs) ys"
  by (induction xs arbitrary: s) simp_all

lemma apply_tx_reverted: "run_tx s t = Inl x \<Longrightarrow> apply_tx s t = s"
  by (simp add: apply_tx_def)

lemma apply_tx_returned: "run_tx s t = Inr s' \<Longrightarrow> apply_tx s t = s'"
  by (simp add: apply_tx_def)

lemma run_tx_BuyPrimary:
  "run_tx s \<lparr>sender = buyer, timestamp = now, call = BuyPrimary eid paid acc\<rparr>
     = buyPrimary s buyer paid now acc eid"
  by (simp add: run_tx_def)

lemma run_tx_ListForResale:
  "run_tx s \<lparr>sender = caller, timestamp = now, call = ListForResale tid price\<rparr>
     = listForResale s caller now tid price"
  by (simp add: run_tx_def)

lemma run_tx_BuyFromResale:
  "run_tx s \<lparr>sender = buyer, timestamp = now, call = BuyFromResale lid paid acc\<rparr>
     = buyFromResale s buyer paid now acc lid"
  by (simp add: run_tx_def)

lemma run_tx_MarkTicketUsed:
  "run_tx s \<lparr>sender = caller, timestamp = now, call = MarkTicketUsed tid\<rparr>
     = markTicketUsed s caller tid"
  by (simp add: run_tx_def)

lemma run_tx_MarkUsed:
  "run_tx s \<lparr>sender = caller, timestamp = now, call = MarkUsed tid\<rparr>
     = on_nft s (markUsed (ticketNFT s) caller tid)"
  by (simp add: run_tx_def)

lemma demo_start_eq:
  "demo_start =
     \<lparr>eventRegistry =
        \<lparr>owner = 31, nextEventId = 2,
         events = (\<lambda>_. zero_event)
           (0 := \<lparr>event_id = 0, name = ''Concert'', date = 1000, location = ''Hall'',
                  basePriceWei = 100, maxResaleFactor = 130, totalTickets = 2,
                  metadataCid = ''cid'', organizer = 10, active = True,
                  maxTicketsPerWallet = 1, walletCooldown = 0\<rparr>,
            1 := \<lparr>event_id = 1, name = ''Festival'', date = 1000, location = ''Park'',
                  basePriceWei = 100, maxResaleFactor = 130, totalTickets = 5,
                  metadataCid = ''cid'', organizer = 10, active = True,
                  maxTicketsPerWallet = 0, walletCooldown = 60\<rparr>),
         validators = (\<lambda>_ _. False)\<rparr>,
      ticketNFT =
        \<lparr>owner = 32, nextTokenId = 0, ticketState = (\<lambda>_. TicketState_None),
         ticketEvent = (\<lambda>_. 0), owners = (\<lambda>_. 0), market = 50\<rparr>,
      ticketMarket =
        \<lparr>owner = 33, nextListingId = 0,
         listings = (\<lambda>_. \<lparr>tokenId = 0, seller = 0, priceWei = 0, listing_active = False\<rparr>),
         mintedTicketsPerEvent = (\<lambda>_. 0),
         buyerState = (\<lambda>_ _. \<lparr>bought = 0, lastBuyTs = 0\<rparr>)\<rparr>,
      marketAddress = 50,
      payments = []\<rparr>"
  by (simp add: demo_defs eval_defs)

lemma demo_sold_out_eq:
  "demo_sold_out = exec demo_start [demo_buy 20 0 7, demo_buy 21 0 8]"
  by (simp add: demo_sold_out_def demo_start_def exec_append)

lemma demo_listed_eq: "demo_listed = exec demo_sold_out [demo_list]"
  by (simp add: demo_listed_def demo_sold_out_def exec_append)

lemma demo_sold_out_facts:
  "mintedTicketsPerEvent (ticketMarket demo_sold_out) 0 = 2"
  "events (eventRegistry demo_sold_out) = events (eventRegistry demo_start)"
  "nextTokenId (ticketNFT demo_sold_out) = 2"
  "ticketState (ticketNFT demo_sold_out) (Suc 0) = Valid"
  "ticketState (ticketNFT demo_sold_out) 2 = Valid"
  "ticketEvent (ticketNFT demo_sold_out) (Suc 0) = 0"
  "ticketEvent (ticketNFT demo_sold_out) 2 = 0"
  "owners (ticketNFT demo_sold_out) (Suc 0) = 20"
  "owners (ticketNFT demo_sold_out) 2 = 21"
  "market (ticketNFT demo_sold_out) = 50"
  "marketAddress demo_sold_out = 50"
  "owner (ticketMarket demo_sold_out) = 33"
  "validators (eventRegistry demo_sold_out) = (\<lambda>_ _. False)"
  "nextListingId (ticketMarket demo_sold_out) = 0"
  "bought (buyerState (ticketMarket demo_sold_out) 0 20) = Suc 0"
  by (simp_all add: demo_sold_out_eq demo_start_eq demo_buy_def eval_defs)

lemma demo_events:
  "events (eventRegistry demo_start) 0 =
     \<lparr>event_id = 0, name = ''Concert'', date = 1000, location = ''Hall'',
      basePriceWei = 100, maxResaleFactor = 130, totalTickets = 2,
      metadataCid = ''cid'', organizer = 10, active = True,
      maxTicketsPerWallet = 1, walletCooldown = 0\<rparr>"
  "events (eventRegistry demo_start) (Suc 0) =
     \<lparr>event_id = Suc 0, name = ''Festival'', date = 1000, location = ''Park'',
      basePriceWei = 100, maxResaleFactor = 130, totalTickets = 5,
      metadataCid = ''cid'', organizer = 10, active = True,
      maxTicketsPerWallet = 0, walletCooldown = 60\<rparr>"
  by (simp_all add: demo_start_eq)

section \<open>Capacity\<close>

lemma buyPrimary_sold_out:
  assumes "mintedTicketsPerEvent (ticketMarket s) eid = totalTickets (events (eventRegistry s) eid)"
  shows "buyPrimary s buyer paid now acc eid = Inl (Evento_inexistente, s)
       \<or> buyPrimary s buyer paid now acc eid = Inl (Evento_inactivo, s)
       \<or> buyPrimary s buyer paid now acc eid = Inl (Evento_ya_paso, s)
       \<or> buyPrimary s buyer paid now acc eid = Inl (Precio_incorrecto, s)
       \<or> buyPrimary s buyer paid now acc eid = Inl (No_quedan_tickets_disponibles, s)"
  using assms by (simp add: buyPrimary_def getEvent_def Let_def)

text \<open>
  Claim C1. In every state reached from deployment, the minted-ticket counter of every
  event is at most the event's \<^verbatim>\<open>totalTickets\<close>. In any state, a call of
  \<^verbatim>\<open>buyPrimary\<close> for an event whose counter equals its capacity reverts at a statement
  where nothing has been written yet, and the transaction leaves the state as it was, so
  that no ticket is minted.
\<close>

theorem capacity_never_exceeded:
  "mintedTicketsPerEvent (ticketMarket (exec (deployed ro no mo ma) txs)) eid
     \<le> totalTickets (events (eventRegistry (exec (deployed ro no mo ma) txs)) eid)
   \<and> (mintedTicketsPerEvent (ticketMarket s) eid' = totalTickets (events (eventRegistry s) eid') \<longrightarrow>
        (\<exists>e. buyPrimary s buyer paid now acc eid' = Inl (e, s))
        \<and> apply_tx s \<lparr>sender = buyer, timestamp = now, call = BuyPrimary eid' paid acc\<rparr> = s)"
proof (intro conjI impI)
  have "capacity_inv (exec (deployed ro no mo ma) txs)"
    using all_inv_reached[of ro no mo ma txs] by (simp add: all_inv_def)
  then show "mintedTicketsPerEvent (ticketMarket (exec (deployed ro no mo ma) txs)) eid
     \<le> totalTickets (events (eventRegistry (exec (deployed ro no mo ma) txs)) eid)"
    by (simp add: capacity_inv_def)
next
  assume full: "mintedTicketsPerEvent (ticketMarket s) eid' = totalTickets (events (eventRegistry s) eid')"
  from buyPrimary_sold_out[OF full, of buyer paid now acc]
  show e: "\<exists>e. buyPrimary s buyer paid now acc eid' = Inl (e, s)" by blast
  then show "apply_tx s \<lparr>sender = buyer, timestamp = now, call = BuyPrimary eid' paid acc\<rparr> = s"
    by (auto simp: run_tx_BuyPrimary intro: apply_tx_reverted)
qed

theorem capacity_never_exceeded_witness:
  "mintedTicketsPerEvent (ticketMarket demo_sold_out) 0 = 2
   \<and> totalTickets (events (eventRegistry demo_sold_out) 0) = 2
   \<and> (\<exists>e. buyPrimary demo_sold_out 22 100 9 True 0 = Inl (e, demo_sold_out))
   \<and> apply_tx demo_sold_out (demo_buy 22 0 9) = demo_sold_out"
  using capacity_never_exceeded[of 31 32 33 50
          "demo_setup @ [demo_buy 20 0 7, demo_buy 21 0 8]" 0 demo_sold_out 0 22 100 9 True]
  by (simp add: demo_sold_out_facts demo_events demo_buy_def)

section \<open>Primary sale: checks before writes, exact payment\<close>

text \<open>
  Claim C7. \<^verbatim>\<open>buyPrimary\<close> is all-or-nothing. Whenever the call reverts, the transaction
  leaves the whole state (minted counters, buyer counters, ticket registry) as it was.
  When it reverts with the reason of one of the seven validations (event exists, active,
  not yet occurred, exact payment, capacity, per-wallet limit, cooldown), nothing had been
  written at the reverting statement; and whenever one of the seven validations does not
  hold, the call reverts at a statement where nothing has been written.
\<close>

theorem buyPrimary_all_or_nothing:
  assumes "evt = events (eventRegistry s) eid"
    and "st = buyerState (ticketMarket s) eid buyer"
  shows
    "(buyPrimary s buyer paid now acc eid = Inl (e, sf) \<longrightarrow>
        apply_tx s \<lparr>sender = buyer, timestamp = now, call = BuyPrimary eid paid acc\<rparr> = s
        \<and> (e = Evento_inexistente \<or> e = Evento_inactivo \<or> e = Evento_ya_paso
             \<or> e = Precio_incorrecto \<or> e = No_quedan_tickets_disponibles
             \<or> e = Limite_de_tickets_por_cartera_alcanzado
             \<or> e = Debes_esperar_antes_de_volver_a_comprar \<longrightarrow> sf = s))
     \<and> (\<not> (organizer evt \<noteq> 0 \<and> active evt \<and> now < date evt \<and> paid = basePriceWei evt
             \<and> mintedTicketsPerEvent (ticketMarket s) eid < totalTickets evt
             \<and> (0 < maxTicketsPerWallet evt \<longrightarrow> bought st + 1 \<le> maxTicketsPerWallet evt)
             \<and> (0 < walletCooldown evt \<and> lastBuyTs st \<noteq> 0 \<longrightarrow>
                    lastBuyTs st + walletCooldown evt \<le> now)) \<longrightarrow>
          (\<exists>e'. buyPrimary s buyer paid now acc eid = Inl (e', s)))"
proof (intro conjI impI)
  assume "buyPrimary s buyer paid now acc eid = Inl (e, sf)"
  then show "apply_tx s \<lparr>sender = buyer, timestamp = now, call = BuyPrimary eid paid acc\<rparr> = s"
    by (auto simp: run_tx_BuyPrimary intro: apply_tx_reverted)
next
  assume "buyPrimary s buyer paid now acc eid = Inl (e, sf)"
    and "e = Evento_inexistente \<or> e = Evento_inactivo \<or> e = Evento_ya_paso
             \<or> e = Precio_incorrecto \<or> e = No_quedan_tickets_disponibles
             \<or> e = Limite_de_tickets_por_cartera_alcanzado
             \<or> e = Debes_esperar_antes_de_volver_a_comprar"
  then show "sf = s"
    by (auto simp: buyPrimary_def getEvent_def mintTicket_def safeMint_def Let_def
             split: if_splits sum.splits prod.splits)
next
  assume "\<not> (organizer evt \<noteq> 0 \<and> active evt \<and> now < date evt \<and> paid = basePriceWei evt
             \<and> mintedTicketsPerEvent (ticketMarket s) eid < totalTickets evt
             \<and> (0 < maxTicketsPerWallet evt \<longrightarrow> bought st + 1 \<le> maxTicketsPerWallet evt)
             \<and> (0 < walletCooldown evt \<and> lastBuyTs st \<noteq> 0 \<longrightarrow>
                    lastBuyTs st + walletCooldown evt \<le> now))"
  then show "\<exists>e'. buyPrimary s buyer paid now acc eid = Inl (e', s)"
    unfolding assms by (auto simp: buyPrimary_def getEvent_def Let_def)
qed

theorem buyPrimary_all_or_nothing_witness:
  "buyPrimary demo_start 20 99 7 True 0 = Inl (Precio_incorrecto, demo_start)
   \<and> apply_tx demo_start \<lparr>sender = 20, timestamp = 7, call = BuyPrimary 0 99 True\<rparr> = demo_start
   \<and> (\<exists>e'. buyPrimary demo_start 20 99 7 True 0 = Inl (e', demo_start))"
proof -
  have f: "buyPrimary demo_start 20 99 7 True 0 = Inl (Precio_incorrecto, demo_start)"
    by (simp add: buyPrimary_def getEvent_def demo_events Let_def)
  have h: "\<not> (organizer (events (eventRegistry demo_start) 0) \<noteq> 0
      \<and> active (events (eventRegistry demo_start) 0)
      \<and> 7 < date (events (eventRegistry demo_start) 0)
      \<and> 99 = basePriceWei (events (eventRegistry demo_start) 0)
      \<and> mintedTicketsPerEvent (ticketMarket demo_start) 0
            < totalTickets (events (eventRegistry demo_start) 0)
      \<and> (0 < maxTicketsPerWallet (events (eventRegistry demo_start) 0) \<longrightarrow>
            bought (buyerState (ticketMarket demo_start) 0 20) + 1
              \<le> maxTicketsPerWallet (events (eventRegistry demo_start) 0))
      \<and> (0 < walletCooldown (events (eventRegistry demo_start) 0)
            \<and> lastBuyTs (buyerState (ticketMarket demo_start) 0 20) \<noteq> 0 \<longrightarrow>
            lastBuyTs (buyerState (ticketMarket demo_start) 0 20)
              + walletCooldown (events (eventRegistry demo_start) 0) \<le> 7))"
    by (simp add: demo_events)
  note t = buyPrimary_all_or_nothing[OF refl refl, where s = demo_start and buyer = 20
      and paid = 99 and now = 7 and acc = True and eid = 0 and e = Precio_incorrecto
      and sf = demo_start]
  from t f have "apply_tx demo_start \<lparr>sender = 20, timestamp = 7, call = BuyPrimary 0 99 True\<rparr>
      = demo_start" by blast
  moreover from t h have "\<exists>e'. buyPrimary demo_start 20 99 7 True 0 = Inl (e', demo_start)"
    by blast
  ultimately show ?thesis using f by blast
qed

text \<open>
  Claim C8. Both purchases compare the payment for equality. \<^verbatim>\<open>buyPrimary\<close> returns only
  when the paid amount is the event's base price, and \<^verbatim>\<open>buyFromResale\<close> only when it is
  the listing's ask price; with any other amount, above or below, the call reverts with no
  write, and the reason is \<^verbatim>\<open>Precio incorrecto\<close> (a payment mismatch) whenever the
  checks the source makes before the payment check hold (the event exists, is active and
  has not occurred; the listing is active and has a seller).
\<close>

theorem exact_payment:
  assumes "evt = events (eventRegistry s) eid" and "lst = listings (ticketMarket s) lid"
  shows
    "(buyPrimary s buyer paid now acc eid = Inr s' \<longrightarrow> paid = basePriceWei evt)
     \<and> (paid \<noteq> basePriceWei evt \<longrightarrow> (\<exists>e. buyPrimary s buyer paid now acc eid = Inl (e, s)))
     \<and> (organizer evt \<noteq> 0 \<and> active evt \<and> now < date evt \<and> paid \<noteq> basePriceWei evt \<longrightarrow>
          buyPrimary s buyer paid now acc eid = Inl (Precio_incorrecto, s))
     \<and> (buyFromResale s buyer paid now acc lid = Inr s'' \<longrightarrow> paid = priceWei lst)
     \<and> (paid \<noteq> priceWei lst \<longrightarrow> (\<exists>e. buyFromResale s buyer paid now acc lid = Inl (e, s)))
     \<and> (listing_active lst \<and> seller lst \<noteq> 0 \<and> paid \<noteq> priceWei lst \<longrightarrow>
          buyFromResale s buyer paid now acc lid = Inl (Precio_incorrecto, s))
     \<and> error_class Precio_incorrecto = Some PaymentMismatchError"
proof (intro conjI impI)
  assume "buyPrimary s buyer paid now acc eid = Inr s'"
  then show "paid = basePriceWei evt" unfolding assms by (rule buyPrimary_InrD(4))
next
  assume "paid \<noteq> basePriceWei evt"
  then show "\<exists>e. buyPrimary s buyer paid now acc eid = Inl (e, s)"
    unfolding assms by (simp add: buyPrimary_def getEvent_def Let_def)
next
  assume "organizer evt \<noteq> 0 \<and> active evt \<and> now < date evt \<and> paid \<noteq> basePriceWei evt"
  then show "buyPrimary s buyer paid now acc eid = Inl (Precio_incorrecto, s)"
    unfolding assms by (simp add: buyPrimary_def getEvent_def Let_def)
next
  assume "buyFromResale s buyer paid now acc lid = Inr s''"
  then show "paid = priceWei lst" unfolding assms by (rule buyFromResale_InrD(3))
next
  assume "paid \<noteq> priceWei lst"
  then show "\<exists>e. buyFromResale s buyer paid now acc lid = Inl (e, s)"
    unfolding assms by (simp add: buyFromResale_def Let_def)
next
  assume "listing_active lst \<and> seller lst \<noteq> 0 \<and> paid \<noteq> priceWei lst"
  then show "buyFromResale s buyer paid now acc lid = Inl (Precio_incorrecto, s)"
    unfolding assms by (simp add: buyFromResale_def Let_def)
qed simp

lemma demo_listed_facts:
  "listings (ticketMarket demo_listed) 0 = \<lparr>tokenId = Suc 0, seller = 20, priceWei = 125, listing_active = True\<rparr>"
  "events (eventRegistry demo_listed) = events (eventRegistry demo_start)"
  "ticketEvent (ticketNFT demo_listed) (Suc 0) = 0"
  "owners (ticketNFT demo_listed) (Suc 0) = 50"
  "market (ticketNFT demo_listed) = 50"
  "marketAddress demo_listed = 50"
  "nextListingId (ticketMarket demo_listed) = Suc 0"
  by (simp_all add: demo_listed_eq demo_list_def apply_tx_def run_tx_def listForResale_def
        ownerOf_def getEvent_def transferFrom_def isAuthorized_def demo_sold_out_facts demo_events
        UINT256_MAX_def Let_def)

lemma demo_resale_succeeds:
  "buyFromResale demo_listed 23 125 10 True 0 = Inr (apply_tx demo_listed demo_resale)"
  by (simp add: demo_resale_def apply_tx_def run_tx_def buyFromResale_def getEvent_def
        transferFrom_def isAuthorized_def demo_listed_facts demo_events Let_def)

theorem exact_payment_witness:
  "buyPrimary demo_start 20 99 7 True 0 = Inl (Precio_incorrecto, demo_start)
   \<and> buyPrimary demo_start 20 101 7 True 0 = Inl (Precio_incorrecto, demo_start)
   \<and> buyFromResale demo_listed 23 124 10 True 0 = Inl (Precio_incorrecto, demo_listed)
   \<and> buyFromResale demo_listed 23 126 10 True 0 = Inl (Precio_incorrecto, demo_listed)
   \<and> buyFromResale demo_listed 23 125 10 True 0 = Inr (apply_tx demo_listed demo_resale)
   \<and> 125 = priceWei (listings (ticketMarket demo_listed) 0)"
proof -
  have ev: "organizer (events (eventRegistry demo_start) 0) \<noteq> 0
      \<and> active (events (eventRegistry demo_start) 0)
      \<and> 7 < date (events (eventRegistry demo_start) 0)"
    and under: "99 \<noteq> basePriceWei (events (eventRegistry demo_start) 0)"
    and over: "101 \<noteq> basePriceWei (events (eventRegistry demo_start) 0)"
    by (simp_all add: demo_events)
  have ls: "listing_active (listings (ticketMarket demo_listed) 0)
      \<and> seller (listings (ticketMarket demo_listed) 0) \<noteq> 0"
    and under': "124 \<noteq> priceWei (listings (ticketMarket demo_listed) 0)"
    and over': "126 \<noteq> priceWei (listings (ticketMarket demo_listed) 0)"
    by (simp_all add: demo_listed_facts)
  note p = exact_payment[OF refl refl, where s = demo_start and buyer = 20 and now = 7
      and acc = True and eid = 0]
  note r = exact_payment[OF refl refl, where s = demo_listed and buyer = 23 and now = 10
      and acc = True and lid = 0]
  have "buyPrimary demo_start 20 99 7 True 0 = Inl (Precio_incorrecto, demo_start)"
    using p[where paid = 99] ev under by blast
  moreover have "buyPrimary demo_start 20 101 7 True 0 = Inl (Precio_incorrecto, demo_start)"
    using p[where paid = 101] ev over by blast
  moreover have "buyFromResale demo_listed 23 124 10 True 0 = Inl (Precio_incorrecto, demo_listed)"
    using r[where paid = 124] ls under' by blast
  moreover have "buyFromResale demo_listed 23 126 10 True 0 = Inl (Precio_incorrecto, demo_listed)"
    using r[where paid = 126] ls over' by blast
  moreover have "125 = priceWei (listings (ticketMarket demo_listed) 0)"
    using r[where paid = 125 and s'' = "apply_tx demo_listed demo_resale"] demo_resale_succeeds
    by blast
  ultimately show ?thesis using demo_resale_succeeds by blast
qed

section \<open>Admission: who may mark a ticket used\<close>

text \<open>
  Claim C9. \<^verbatim>\<open>markTicketUsed\<close> returns only when the caller is the organizer of the
  ticket's event, a registered validator of that event, or the owner of the market
  contract. For every other caller it reverts with no write and the ticket's state stays
  as it was; the reason is \<^verbatim>\<open>No autorizado para validar\<close> (an authorization error)
  whenever the ticket's event exists, the one check the source makes before the
  authorization.
\<close>

theorem markTicketUsed_authorization:
  assumes "eid = ticketEvent (ticketNFT s) tid"
    and "evt = events (eventRegistry s) eid"
    and "authorized = (caller = organizer evt \<or> isValidator (eventRegistry s) eid caller
                        \<or> caller = owner (ticketMarket s))"
  shows
    "(markTicketUsed s caller tid = Inr s' \<longrightarrow> authorized)
     \<and> (\<not> authorized \<longrightarrow>
          (markTicketUsed s caller tid = Inl (No_autorizado_para_validar, s)
             \<or> markTicketUsed s caller tid = Inl (Evento_inexistente, s))
          \<and> apply_tx s \<lparr>sender = caller, timestamp = now, call = MarkTicketUsed tid\<rparr> = s)
     \<and> (\<not> authorized \<and> organizer evt \<noteq> 0 \<longrightarrow>
          markTicketUsed s caller tid = Inl (No_autorizado_para_validar, s))
     \<and> error_class No_autorizado_para_validar = Some AuthorizationError"
proof (intro conjI impI)
  assume "markTicketUsed s caller tid = Inr s'"
  from markTicketUsed_InrD(2)[OF this] show authorized
    unfolding assms by (simp add: isValidator_def)
next
  assume na: "\<not> authorized"
  then show d: "markTicketUsed s caller tid = Inl (No_autorizado_para_validar, s)
             \<or> markTicketUsed s caller tid = Inl (Evento_inexistente, s)"
    unfolding assms by (simp add: markTicketUsed_def getEvent_def Let_def)
  then show "apply_tx s \<lparr>sender = caller, timestamp = now, call = MarkTicketUsed tid\<rparr> = s"
    by (auto simp: run_tx_MarkTicketUsed intro: apply_tx_reverted)
next
  assume "\<not> authorized \<and> organizer evt \<noteq> 0"
  then show "markTicketUsed s caller tid = Inl (No_autorizado_para_validar, s)"
    unfolding assms by (simp add: markTicketUsed_def getEvent_def Let_def)
qed simp

theorem markTicketUsed_authorization_witness:
  "markTicketUsed demo_sold_out 99 2 = Inl (No_autorizado_para_validar, demo_sold_out)
   \<and> apply_tx demo_sold_out \<lparr>sender = 99, timestamp = 11, call = MarkTicketUsed 2\<rparr> = demo_sold_out
   \<and> markTicketUsed demo_sold_out 10 2 = Inr (apply_tx demo_sold_out demo_mark)
   \<and> 10 = organizer (events (eventRegistry demo_sold_out) (ticketEvent (ticketNFT demo_sold_out) 2))"
proof -
  have ok: "markTicketUsed demo_sold_out 10 2 = Inr (apply_tx demo_sold_out demo_mark)"
    by (simp add: demo_mark_def apply_tx_def run_tx_def markTicketUsed_def markUsed_def
          getEvent_def isValidator_def demo_sold_out_facts demo_events Let_def)
  have org: "10 = organizer (events (eventRegistry demo_sold_out) (ticketEvent (ticketNFT demo_sold_out) 2))"
    by (simp add: demo_sold_out_facts demo_events)
  have na: "\<not> (99 = organizer (events (eventRegistry demo_sold_out) (ticketEvent (ticketNFT demo_sold_out) 2))
        \<or> isValidator (eventRegistry demo_sold_out) (ticketEvent (ticketNFT demo_sold_out) 2) 99
        \<or> 99 = owner (ticketMarket demo_sold_out))"
    and ex: "organizer (events (eventRegistry demo_sold_out) (ticketEvent (ticketNFT demo_sold_out) 2)) \<noteq> 0"
    by (simp_all add: isValidator_def demo_sold_out_facts demo_events)
  note t = markTicketUsed_authorization[OF refl refl refl, where s = demo_sold_out and tid = 2
      and caller = 99 and now = 11]
  from t na ex have "markTicketUsed demo_sold_out 99 2 = Inl (No_autorizado_para_validar, demo_sold_out)"
    by blast
  moreover from t na
  have "apply_tx demo_sold_out \<lparr>sender = 99, timestamp = 11, call = MarkTicketUsed 2\<rparr> = demo_sold_out"
    by blast
  ultimately show ?thesis using ok org by blast
qed

section \<open>Resale: the price cap\<close>

text \<open>
  Claim C4. \<^verbatim>\<open>listForResale\<close> returns only when the ask price is at most
  \<open>basePriceWei * maxResaleFactor div 100\<close> (integer division, rounding down), and then
  the listing it creates carries the ask price as given. With a price above the cap the
  call reverts with no write and the transaction leaves the state as it was, so no listing
  is created; when every other requirement of the source holds, the reason is
  \<^verbatim>\<open>Sobrepasa el maximo de reventa\<close>.
\<close>

theorem resale_price_cap:
  assumes "evt = events (eventRegistry s) (ticketEvent (ticketNFT s) tid)"
    and "cap = (basePriceWei evt * maxResaleFactor evt) div 100"
  shows
    "(listForResale s caller now tid price = Inr s' \<longrightarrow>
        price \<le> cap
        \<and> listings (ticketMarket s') (nextListingId (ticketMarket s))
            = \<lparr>tokenId = tid, seller = caller, priceWei = price, listing_active = True\<rparr>)
     \<and> (cap < price \<longrightarrow>
          (\<exists>e. listForResale s caller now tid price = Inl (e, s))
          \<and> apply_tx s \<lparr>sender = caller, timestamp = now, call = ListForResale tid price\<rparr> = s)
     \<and> (cap < price \<and> owners (ticketNFT s) tid = caller \<and> caller \<noteq> 0
          \<and> ticketState (ticketNFT s) tid = Valid
          \<and> organizer evt \<noteq> 0 \<and> active evt \<and> now < date evt
          \<and> basePriceWei evt * maxResaleFactor evt \<le> UINT256_MAX \<longrightarrow>
          listForResale s caller now tid price = Inl (Sobrepasa_el_maximo_de_reventa, s))
     \<and> error_class Sobrepasa_el_maximo_de_reventa = Some ValidationError"
proof (intro conjI impI)
  assume ok: "listForResale s caller now tid price = Inr s'"
  from listForResale_InrD(8)[OF ok] show "price \<le> cap" unfolding assms .
  from listForResale_InrD(10)[OF ok]
  show "listings (ticketMarket s') (nextListingId (ticketMarket s))
            = \<lparr>tokenId = tid, seller = caller, priceWei = price, listing_active = True\<rparr>"
    by auto
next
  assume "cap < price"
  then show e: "\<exists>e. listForResale s caller now tid price = Inl (e, s)"
    unfolding assms
    by (auto simp: listForResale_def ownerOf_def getEvent_def Let_def split: sum.splits)
  then show "apply_tx s \<lparr>sender = caller, timestamp = now, call = ListForResale tid price\<rparr> = s"
    by (auto simp: run_tx_ListForResale intro: apply_tx_reverted)
next
  assume "cap < price \<and> owners (ticketNFT s) tid = caller \<and> caller \<noteq> 0
          \<and> ticketState (ticketNFT s) tid = Valid
          \<and> organizer evt \<noteq> 0 \<and> active evt \<and> now < date evt
          \<and> basePriceWei evt * maxResaleFactor evt \<le> UINT256_MAX"
  then show "listForResale s caller now tid price = Inl (Sobrepasa_el_maximo_de_reventa, s)"
    unfolding assms
    by (auto simp: listForResale_def ownerOf_def getEvent_def Let_def)
qed simp

lemma demo_list_succeeds:
  "listForResale demo_sold_out 20 9 1 125 = Inr demo_listed"
  by (simp add: demo_listed_eq demo_list_def apply_tx_def run_tx_def listForResale_def ownerOf_def
        getEvent_def transferFrom_def isAuthorized_def demo_sold_out_facts demo_events
        UINT256_MAX_def Let_def)

theorem resale_price_cap_witness:
  "(basePriceWei (events (eventRegistry demo_sold_out) (ticketEvent (ticketNFT demo_sold_out) 1))
      * maxResaleFactor (events (eventRegistry demo_sold_out) (ticketEvent (ticketNFT demo_sold_out) 1)))
      div 100 = 130
   \<and> listForResale demo_sold_out 20 9 1 140 = Inl (Sobrepasa_el_maximo_de_reventa, demo_sold_out)
   \<and> apply_tx demo_sold_out \<lparr>sender = 20, timestamp = 9, call = ListForResale 1 140\<rparr> = demo_sold_out
   \<and> listForResale demo_sold_out 20 9 1 125 = Inr demo_listed
   \<and> listings (ticketMarket demo_listed) (nextListingId (ticketMarket demo_sold_out))
        = \<lparr>tokenId = 1, seller = 20, priceWei = 125, listing_active = True\<rparr>"
proof -
  have cap: "(basePriceWei (events (eventRegistry demo_sold_out) (ticketEvent (ticketNFT demo_sold_out) 1))
      * maxResaleFactor (events (eventRegistry demo_sold_out) (ticketEvent (ticketNFT demo_sold_out) 1)))
      div 100 = 130"
    by (simp add: demo_sold_out_facts demo_events)
  have pre: "owners (ticketNFT demo_sold_out) 1 = 20 \<and> (20::nat) \<noteq> 0
      \<and> ticketState (ticketNFT demo_sold_out) 1 = Valid
      \<and> organizer (events (eventRegistry demo_sold_out) (ticketEvent (ticketNFT demo_sold_out) 1)) \<noteq> 0
      \<and> active (events (eventRegistry demo_sold_out) (ticketEvent (ticketNFT demo_sold_out) 1))
      \<and> 9 < date (events (eventRegistry demo_sold_out) (ticketEvent (ticketNFT demo_sold_out) 1))
      \<and> basePriceWei (events (eventRegistry demo_sold_out) (ticketEvent (ticketNFT demo_sold_out) 1))
          * maxResaleFactor (events (eventRegistry demo_sold_out) (ticketEvent (ticketNFT demo_sold_out) 1))
          \<le> UINT256_MAX"
    by (simp add: demo_sold_out_facts demo_events UINT256_MAX_def)
  have above: "(basePriceWei (events (eventRegistry demo_sold_out) (ticketEvent (ticketNFT demo_sold_out) 1))
      * maxResaleFactor (events (eventRegistry demo_sold_out) (ticketEvent (ticketNFT demo_sold_out) 1)))
      div 100 < 140"
    using cap by simp
  note t = resale_price_cap[OF refl refl, where s = demo_sold_out and caller = 20 and now = 9
      and tid = 1]
  from t[where price = 140] above pre
  have "listForResale demo_sold_out 20 9 1 140 = Inl (Sobrepasa_el_maximo_de_reventa, demo_sold_out)"
    by blast
  moreover from t[where price = 140] above
  have "apply_tx demo_sold_out \<lparr>sender = 20, timestamp = 9, call = ListForResale 1 140\<rparr> = demo_sold_out"
    by blast
  moreover from t[where price = 125 and s' = demo_listed] demo_list_succeeds
  have "listings (ticketMarket demo_listed) (nextListingId (ticketMarket demo_sold_out))
        = \<lparr>tokenId = 1, seller = 20, priceWei = 125, listing_active = True\<rparr>"
    by blast
  ultimately show ?thesis using cap demo_list_succeeds by blast
qed

section \<open>What one transaction changes\<close>

lemma buyerState_other:
  assumes returned: "run_tx s t = Inr s'"
    and other: "\<not> is_primary_buy eid w t"
  shows "buyerState (ticketMarket s') eid w = buyerState (ticketMarket s) eid w"
proof (cases "call t")
  case (CreateEvent nm dt loc price factor tickets cid perWallet cooldown)
    with returned other show ?thesis
      by (auto simp: plain_calls  split: if_splits)
next
  case (SetEventActive k flag)
    with returned other show ?thesis
      by (auto simp: plain_calls  split: if_splits)
next
  case (SetValidator k v flag)
    with returned other show ?thesis
      by (auto simp: plain_calls  split: if_splits)
next
  case (SetMarket m)
    with returned other show ?thesis
      by (auto simp: plain_calls  split: if_splits)
next
  case (MintTicket dst k acc)
    with returned other show ?thesis
      by (auto simp: run_tx_def on_nft_def  split: sum.splits dest!: map_sum_snd_InrD mintTicket_InrD(6))
next
  case (MarkUsed k)
    with returned other show ?thesis
      by (auto simp: run_tx_def on_nft_def  split: sum.splits dest!: markUsed_InrD(4))
next
  case (TransferFrom src dst k)
    with returned other show ?thesis
      by (auto simp: run_tx_def on_nft_def  split: sum.splits dest!: transferFrom_InrD(4))
next
  case (SafeTransferFrom src dst k acc)
    with returned other show ?thesis
      by (auto simp: run_tx_def on_nft_def safeTransferFrom_def  split: sum.splits if_splits dest!: transferFrom_InrD(4))
next
  case (BuyPrimary k paid acc)
    with returned other show ?thesis
      by (auto simp: run_tx_def is_primary_buy_def dest!: buyPrimary_InrD(8))
next
  case (ListForResale k price)
    with returned other show ?thesis
      by (auto simp: run_tx_def  dest!: listForResale_InrD(10))
next
  case (BuyFromResale k paid acc)
    with returned other show ?thesis
      by (auto simp: run_tx_def  dest!: buyFromResale_InrD(5))
next
  case (MarkTicketUsed k)
    with returned other show ?thesis
      by (auto simp: run_tx_def  dest!: markTicketUsed_InrD(3) markUsed_InrD(4))
next
  case (TransferOwnership c a)
    with returned other show ?thesis
      by (cases c) (auto simp: plain_calls  split: if_splits)
next
  case (RenounceOwnership c)
    with returned other show ?thesis
      by (cases c) (auto simp: plain_calls  split: if_splits)
qed

lemma buyerState_bought:
  assumes returned: "run_tx s t = Inr s'" and buy: "is_primary_buy eid w t"
  shows "bought (buyerState (ticketMarket s') eid w) = bought (buyerState (ticketMarket s) eid w) + 1"
    and "lastBuyTs (buyerState (ticketMarket s') eid w) = timestamp t mod 2 ^ 64"
    and "organizer (events (eventRegistry s) eid) \<noteq> 0"
    and "walletCooldown (events (eventRegistry s) eid) > 0 \<Longrightarrow>
         lastBuyTs (buyerState (ticketMarket s) eid w) \<noteq> 0 \<Longrightarrow>
           lastBuyTs (buyerState (ticketMarket s) eid w)
             + walletCooldown (events (eventRegistry s) eid) \<le> timestamp t"
proof -
  from buy obtain paid acc where c: "call t = BuyPrimary eid paid acc" and w: "sender t = w"
    by (auto simp: is_primary_buy_def split: call.splits)
  with returned have b: "buyPrimary s w paid (timestamp t) acc eid = Inr s'"
    by (simp add: run_tx_def)
  from buyPrimary_InrD(8)[OF b]
  show "bought (buyerState (ticketMarket s') eid w) = bought (buyerState (ticketMarket s) eid w) + 1"
    and "lastBuyTs (buyerState (ticketMarket s') eid w) = timestamp t mod 2 ^ 64"
    by auto
  show "organizer (events (eventRegistry s) eid) \<noteq> 0" by (rule buyPrimary_InrD(1)[OF b])
  show "walletCooldown (events (eventRegistry s) eid) > 0 \<Longrightarrow>
         lastBuyTs (buyerState (ticketMarket s) eid w) \<noteq> 0 \<Longrightarrow>
           lastBuyTs (buyerState (ticketMarket s) eid w)
             + walletCooldown (events (eventRegistry s) eid) \<le> timestamp t"
    by (rule buyPrimary_InrD(7)[OF b])
qed

lemma event_config_step:
  assumes returned: "run_tx s t = Inr s'"
    and old: "eid < nextEventId (eventRegistry s)"
  shows "eid < nextEventId (eventRegistry s') \<and> walletCooldown (events (eventRegistry s') eid) = walletCooldown (events (eventRegistry s) eid) \<and> maxTicketsPerWallet (events (eventRegistry s') eid) = maxTicketsPerWallet (events (eventRegistry s) eid) \<and> totalTickets (events (eventRegistry s') eid) = totalTickets (events (eventRegistry s) eid) \<and> organizer (events (eventRegistry s') eid) = organizer (events (eventRegistry s) eid)"
proof (cases "call t")
  case (CreateEvent nm dt loc price factor tickets cid perWallet cooldown)
    with returned old show ?thesis
      by (auto simp: plain_calls  split: if_splits)
next
  case (SetEventActive k flag)
    with returned old show ?thesis
      by (auto simp: plain_calls  split: if_splits)
next
  case (SetValidator k v flag)
    with returned old show ?thesis
      by (auto simp: plain_calls  split: if_splits)
next
  case (SetMarket m)
    with returned old show ?thesis
      by (auto simp: plain_calls  split: if_splits)
next
  case (MintTicket dst k acc)
    with returned old show ?thesis
      by (auto simp: run_tx_def on_nft_def  split: sum.splits dest!: map_sum_snd_InrD mintTicket_InrD(6))
next
  case (MarkUsed k)
    with returned old show ?thesis
      by (auto simp: run_tx_def on_nft_def  split: sum.splits dest!: markUsed_InrD(4))
next
  case (TransferFrom src dst k)
    with returned old show ?thesis
      by (auto simp: run_tx_def on_nft_def  split: sum.splits dest!: transferFrom_InrD(4))
next
  case (SafeTransferFrom src dst k acc)
    with returned old show ?thesis
      by (auto simp: run_tx_def on_nft_def safeTransferFrom_def  split: sum.splits if_splits dest!: transferFrom_InrD(4))
next
  case (BuyPrimary k paid acc)
    with returned old show ?thesis
      by (auto simp: run_tx_def  dest!: buyPrimary_InrD(8))
next
  case (ListForResale k price)
    with returned old show ?thesis
      by (auto simp: run_tx_def  dest!: listForResale_InrD(10))
next
  case (BuyFromResale k paid acc)
    with returned old show ?thesis
      by (auto simp: run_tx_def  dest!: buyFromResale_InrD(5))
next
  case (MarkTicketUsed k)
    with returned old show ?thesis
      by (auto simp: run_tx_def  dest!: markTicketUsed_InrD(3) markUsed_InrD(4))
next
  case (TransferOwnership c a)
    with returned old show ?thesis
      by (cases c) (auto simp: plain_calls  split: if_splits)
next
  case (RenounceOwnership c)
    with returned old show ?thesis
      by (cases c) (auto simp: plain_calls  split: if_splits)
qed

lemma listing_closed_step:
  assumes returned: "run_tx s t = Inr s'"
    and old: "lid < nextListingId (ticketMarket s)"
    and closed: "\<not> listing_active (listings (ticketMarket s) lid)"
  shows "lid < nextListingId (ticketMarket s') \<and> \<not> listing_active (listings (ticketMarket s') lid)"
proof (cases "call t")
  case (CreateEvent nm dt loc price factor tickets cid perWallet cooldown)
    with returned old closed show ?thesis
      by (auto simp: plain_calls  split: if_splits)
next
  case (SetEventActive k flag)
    with returned old closed show ?thesis
      by (auto simp: plain_calls  split: if_splits)
next
  case (SetValidator k v flag)
    with returned old closed show ?thesis
      by (auto simp: plain_calls  split: if_splits)
next
  case (SetMarket m)
    with returned old closed show ?thesis
      by (auto simp: plain_calls  split: if_splits)
next
  case (MintTicket dst k acc)
    with returned old closed show ?thesis
      by (auto simp: run_tx_def on_nft_def  split: sum.splits dest!: map_sum_snd_InrD mintTicket_InrD(6))
next
  case (MarkUsed k)
    with returned old closed show ?thesis
      by (auto simp: run_tx_def on_nft_def  split: sum.splits dest!: markUsed_InrD(4))
next
  case (TransferFrom src dst k)
    with returned old closed show ?thesis
      by (auto simp: run_tx_def on_nft_def  split: sum.splits dest!: transferFrom_InrD(4))
next
  case (SafeTransferFrom src dst k acc)
    with returned old closed show ?thesis
      by (auto simp: run_tx_def on_nft_def safeTransferFrom_def  split: sum.splits if_splits dest!: transferFrom_InrD(4))
next
  case (BuyPrimary k paid acc)
    with returned old closed show ?thesis
      by (auto simp: run_tx_def  dest!: buyPrimary_InrD(8))
next
  case (ListForResale k price)
    with returned old closed show ?thesis
      by (auto simp: run_tx_def  dest!: listForResale_InrD(10))
next
  case (BuyFromResale k paid acc)
    with returned old closed show ?thesis
      by (auto simp: run_tx_def split: if_splits dest!: buyFromResale_InrD(5))
next
  case (MarkTicketUsed k)
    with returned old closed show ?thesis
      by (auto simp: run_tx_def  dest!: markTicketUsed_InrD(3) markUsed_InrD(4))
next
  case (TransferOwnership c a)
    with returned old closed show ?thesis
      by (cases c) (auto simp: plain_calls  split: if_splits)
next
  case (RenounceOwnership c)
    with returned old closed show ?thesis
      by (cases c) (auto simp: plain_calls  split: if_splits)
qed

lemma resale_buy_closes:
  assumes returned: "run_tx s t = Inr s'" and buy: "is_resale_buy lid t"
  shows "listing_active (listings (ticketMarket s) lid)"
    and "\<not> listing_active (listings (ticketMarket s') lid)"
    and "nextListingId (ticketMarket s') = nextListingId (ticketMarket s)"
proof -
  from buy obtain paid acc where c: "call t = BuyFromResale lid paid acc"
    by (auto simp: is_resale_buy_def split: call.splits)
  with returned have b: "buyFromResale s (sender t) paid (timestamp t) acc lid = Inr s'"
    by (simp add: run_tx_def)
  show "listing_active (listings (ticketMarket s) lid)" by (rule buyFromResale_InrD(1)[OF b])
  from buyFromResale_InrD(5)[OF b]
  show "\<not> listing_active (listings (ticketMarket s') lid)"
    and "nextListingId (ticketMarket s') = nextListingId (ticketMarket s)" by auto
qed

lemma transition_mintTicket:
  assumes inv: "nft_inv s" and m: "mintTicket (ticketNFT s) caller dst eid acc = Inr (k, n)"
  shows "ticketState n tid = ticketState (ticketNFT s) tid
     \<or> (ticketState (ticketNFT s) tid = TicketState_None \<and> ticketState n tid = Valid)"
proof -
  have "\<not> minted (ticketNFT s) k" using mintTicket_InrD(2)[OF m] by (simp add: minted_def)
  then have "ticketState (ticketNFT s) k = TicketState_None" by (rule nft_invD(3)[OF inv])
  moreover have "ticketState n = (ticketState (ticketNFT s))(k := Valid)"
    using mintTicket_InrD(6)[OF m] by simp
  ultimately show ?thesis by auto
qed

lemma transition_markUsed:
  assumes m: "markUsed (ticketNFT s) caller k = Inr n"
  shows "ticketState n tid = ticketState (ticketNFT s) tid
     \<or> (ticketState (ticketNFT s) tid = Valid \<and> ticketState n tid = Used)"
  using markUsed_InrD(3,4)[OF m] by auto

lemma ticket_transitions:
  assumes returned: "run_tx s t = Inr s'"
    and inv: "nft_inv s"
  shows "ticketState (ticketNFT s') tid = ticketState (ticketNFT s) tid \<or> (ticketState (ticketNFT s) tid = TicketState_None \<and> ticketState (ticketNFT s') tid = Valid) \<or> (ticketState (ticketNFT s) tid = Valid \<and> ticketState (ticketNFT s') tid = Used)"
proof (cases "call t")
  case (CreateEvent nm dt loc price factor tickets cid perWallet cooldown)
    with returned  show ?thesis
      by (auto simp: plain_calls  split: if_splits)
next
  case (SetEventActive k flag)
    with returned  show ?thesis
      by (auto simp: plain_calls  split: if_splits)
next
  case (SetValidator k v flag)
    with returned  show ?thesis
      by (auto simp: plain_calls  split: if_splits)
next
  case (SetMarket m)
    with returned  show ?thesis
      by (auto simp: plain_calls  split: if_splits)
next
  case (MintTicket dst k acc)
    with returned obtain j n where m: "mintTicket (ticketNFT s) (sender t) dst k acc = Inr (j, n)"
      and "ticketNFT s' = n"
      by (auto simp: run_tx_def on_nft_def split: sum.splits dest!: map_sum_snd_InrD)
    with transition_mintTicket[OF inv m, of tid] show ?thesis by auto
next
  case (MarkUsed k)
    with returned obtain n where m: "markUsed (ticketNFT s) (sender t) k = Inr n"
      and "ticketNFT s' = n"
      by (auto simp: run_tx_def on_nft_def split: sum.splits)
    with transition_markUsed[OF m, of tid] show ?thesis by auto
next
  case (TransferFrom src dst k)
    with returned  show ?thesis
      by (auto simp: run_tx_def on_nft_def  split: sum.splits dest!: transferFrom_InrD(4))
next
  case (SafeTransferFrom src dst k acc)
    with returned  show ?thesis
      by (auto simp: run_tx_def on_nft_def safeTransferFrom_def  split: sum.splits if_splits dest!: transferFrom_InrD(4))
next
  case (BuyPrimary k paid acc)
    with returned have b: "buyPrimary s (sender t) paid (timestamp t) acc k = Inr s'"
      by (simp add: run_tx_def)
    from buyPrimary_InrD(8)[OF b] obtain j n
      where m: "mintTicket (ticketNFT s) (marketAddress s) (sender t) k acc = Inr (j, n)"
        and "ticketNFT s' = n" by auto
    with transition_mintTicket[OF inv m, of tid] show ?thesis by auto
next
  case (ListForResale k price)
    with returned  show ?thesis
      by (auto simp: run_tx_def  dest!: listForResale_InrD(10) transferFrom_InrD(4))
next
  case (BuyFromResale k paid acc)
    with returned  show ?thesis
      by (auto simp: run_tx_def  dest!: buyFromResale_InrD(5) transferFrom_InrD(4))
next
  case (MarkTicketUsed k)
    with returned have b: "markTicketUsed s (sender t) k = Inr s'"
      by (simp add: run_tx_def)
    from markTicketUsed_InrD(3)[OF b] obtain n
      where m: "markUsed (ticketNFT s) (marketAddress s) k = Inr n" and "ticketNFT s' = n" by auto
    with transition_markUsed[OF m, of tid] show ?thesis by auto
next
  case (TransferOwnership c a)
    with returned  show ?thesis
      by (cases c) (auto simp: plain_calls  split: if_splits)
next
  case (RenounceOwnership c)
    with returned  show ?thesis
      by (cases c) (auto simp: plain_calls  split: if_splits)
qed

lemma mark_used_effect:
  assumes returned: "run_tx s t = Inr s'" and mark: "is_mark_used tid t"
  shows "ticketState (ticketNFT s) tid = Valid" and "ticketState (ticketNFT s') tid = Used"
proof -
  from mark consider (direct) "call t = MarkUsed tid" | (market) "call t = MarkTicketUsed tid"
    by (auto simp: is_mark_used_def split: call.splits)
  then have "ticketState (ticketNFT s) tid = Valid \<and> ticketState (ticketNFT s') tid = Used"
  proof cases
    case direct
    with returned obtain n where m: "markUsed (ticketNFT s) (sender t) tid = Inr n"
      and "ticketNFT s' = n"
      by (auto simp: run_tx_def on_nft_def split: sum.splits)
    with markUsed_InrD(3,4)[OF m] show ?thesis by auto
  next
    case market
    with returned have b: "markTicketUsed s (sender t) tid = Inr s'"
      by (simp add: run_tx_def)
    from markTicketUsed_InrD(3)[OF b] obtain n
      where m: "markUsed (ticketNFT s) (marketAddress s) tid = Inr n" and "ticketNFT s' = n" by auto
    with markUsed_InrD(3,4)[OF m] show ?thesis by auto
  qed
  then show "ticketState (ticketNFT s) tid = Valid" and "ticketState (ticketNFT s') tid = Used"
    by simp_all
qed

section \<open>Runs\<close>

lemma succeeds_Inr: "succeeds s t \<Longrightarrow> \<exists>s'. run_tx s t = Inr s' \<and> apply_tx s t = s'"
  by (cases "run_tx s t") (auto simp: succeeds_def apply_tx_def)

lemma not_succeeds_same: "\<not> succeeds s t \<Longrightarrow> apply_tx s t = s"
  by (cases "run_tx s t") (auto simp: succeeds_def apply_tx_def)

lemma nft_inv_reached: "nft_inv (exec (deployed ro no mo ma) txs)"
  using all_inv_reached[of ro no mo ma txs] by (simp add: all_inv_def)

lemma nft_inv_exec: "nft_inv s \<Longrightarrow> nft_inv (exec s txs)"
  by (induction txs arbitrary: s) (simp_all add: nft_inv_step)

lemma final_state_step:
  assumes "nft_inv s"
    and "ticketState (ticketNFT s) tid = Used \<or> ticketState (ticketNFT s) tid = Cancelled"
  shows "ticketState (ticketNFT (apply_tx s t)) tid = ticketState (ticketNFT s) tid"
proof (cases "succeeds s t")
  case True
  then obtain s' where r: "run_tx s t = Inr s'" and a: "apply_tx s t = s'"
    using succeeds_Inr by blast
  from ticket_transitions[OF r assms(1), of tid] assms(2) a show ?thesis by auto
next
  case False
  then show ?thesis by (simp add: not_succeeds_same)
qed

lemma final_state_exec:
  assumes "nft_inv s"
    and "ticketState (ticketNFT s) tid = Used \<or> ticketState (ticketNFT s) tid = Cancelled"
  shows "ticketState (ticketNFT (exec s txs)) tid = ticketState (ticketNFT s) tid"
  using assms
proof (induction txs arbitrary: s)
  case Nil
  then show ?case by simp
next
  case (Cons t ts)
  have 1: "nft_inv (apply_tx s t)" by (rule nft_inv_step[OF Cons.prems(1)])
  have 2: "ticketState (ticketNFT (apply_tx s t)) tid = ticketState (ticketNFT s) tid"
    by (rule final_state_step[OF Cons.prems])
  with Cons.IH[OF 1] Cons.prems(2) show ?case by simp
qed

lemma mark_used_count:
  assumes "nft_inv s"
  shows "length (filter (is_mark_used tid) (successes s txs))
           \<le> (if ticketState (ticketNFT s) tid = Used then 0 else 1)"
  using assms
proof (induction txs arbitrary: s)
  case Nil
  then show ?case by simp
next
  case (Cons t ts)
  have inv': "nft_inv (apply_tx s t)" by (rule nft_inv_step[OF Cons.prems])
  note IH = Cons.IH[OF inv']
  show ?case
  proof (cases "succeeds s t \<and> is_mark_used tid t")
    case True
    then obtain s' where r: "run_tx s t = Inr s'" and a: "apply_tx s t = s'"
      using succeeds_Inr by blast
    from mark_used_effect[OF r] True have "ticketState (ticketNFT s) tid = Valid"
      and "ticketState (ticketNFT s') tid = Used" by simp_all
    with IH a True show ?thesis by simp
  next
    case False
    have "ticketState (ticketNFT s) tid = Used \<Longrightarrow> ticketState (ticketNFT (apply_tx s t)) tid = Used"
      using final_state_step[OF Cons.prems, of tid t] by simp
    with IH False show ?thesis by (auto split: if_splits)
  qed
qed

section \<open>The observable state of a ticket\<close>




section \<open>Ticket states only move forward\<close>

text \<open>
  Claim C2. In every run from deployment at most one marking of a given ticket as used
  succeeds, whether through \<^verbatim>\<open>TicketNFT.markUsed\<close> or \<^verbatim>\<open>TicketMarket.markTicketUsed\<close>.
  In every reached state, \<^verbatim>\<open>markUsed\<close> returns only on a \<^verbatim>\<open>Valid\<close> ticket and makes
  it \<^verbatim>\<open>Used\<close>; it does return on a minted \<^verbatim>\<open>Valid\<close> ticket when called by the market;
  on a \<^verbatim>\<open>Used\<close> ticket it always reverts, with the state-conflict reason
  \<^verbatim>\<open>Ticket no valido para marcar como usado\<close> when the caller is the market (the only
  caller the modifier \<^verbatim>\<open>onlyMarket\<close> lets through), and \<^verbatim>\<open>markTicketUsed\<close> reverts too;
  and a ticket that is \<^verbatim>\<open>Used\<close> or \<^verbatim>\<open>Cancelled\<close> keeps that state through every later
  run of transactions.
\<close>

theorem ticket_states_monotonic:
  assumes "s = exec (deployed ro no mo ma) txs"
  shows
    "length (filter (is_mark_used tid) (successes (deployed ro no mo ma) txs)) \<le> 1
     \<and> (markUsed (ticketNFT s) caller tid = Inr n \<longrightarrow>
          ticketState (ticketNFT s) tid = Valid \<and> ticketState n tid = Used)
     \<and> (minted (ticketNFT s) tid \<and> ticketState (ticketNFT s) tid = Valid
          \<and> caller = market (ticketNFT s) \<longrightarrow>
          (\<exists>n'. markUsed (ticketNFT s) caller tid = Inr n'))
     \<and> (ticketState (ticketNFT s) tid = Used \<longrightarrow>
          (\<exists>e. markUsed (ticketNFT s) caller tid = Inl e)
          \<and> (caller = market (ticketNFT s) \<longrightarrow>
                markUsed (ticketNFT s) caller tid = Inl Ticket_no_valido_para_marcar_como_usado)
          \<and> (\<exists>e. markTicketUsed s caller tid = Inl (e, s)))
     \<and> (ticketState (ticketNFT s) tid = Used \<or> ticketState (ticketNFT s) tid = Cancelled \<longrightarrow>
          ticketState (ticketNFT (exec s later)) tid = ticketState (ticketNFT s) tid)
     \<and> error_class Ticket_no_valido_para_marcar_como_usado = Some StateConflictError"
proof -
  have inv: "nft_inv s" unfolding assms by (rule nft_inv_reached)
  have c1: "length (filter (is_mark_used tid) (successes (deployed ro no mo ma) txs)) \<le> 1"
    using mark_used_count[OF deployed_invs(4), of tid ro no mo ma txs] by (simp split: if_splits)
  have c2: "markUsed (ticketNFT s) caller tid = Inr n \<longrightarrow>
          ticketState (ticketNFT s) tid = Valid \<and> ticketState n tid = Used"
    using markUsed_InrD(3,4)[of "ticketNFT s" caller tid n] by auto
  have c3: "minted (ticketNFT s) tid \<and> ticketState (ticketNFT s) tid = Valid
          \<and> caller = market (ticketNFT s) \<longrightarrow>
          (\<exists>n'. markUsed (ticketNFT s) caller tid = Inr n')"
    using nft_invD(1)[OF inv, of tid] by (auto simp: markUsed_def)
  have c4: "ticketState (ticketNFT s) tid = Used \<longrightarrow>
          (\<exists>e. markUsed (ticketNFT s) caller tid = Inl e)
          \<and> (caller = market (ticketNFT s) \<longrightarrow>
                markUsed (ticketNFT s) caller tid = Inl Ticket_no_valido_para_marcar_como_usado)
          \<and> (\<exists>e. markTicketUsed s caller tid = Inl (e, s))"
  proof
    assume u: "ticketState (ticketNFT s) tid = Used"
    then have "minted (ticketNFT s) tid" using nft_inv_Valid_minted[OF inv, of tid] by simp
    then have o: "owners (ticketNFT s) tid \<noteq> 0" by (rule nft_invD(1)[OF inv])
    from u o show "(\<exists>e. markUsed (ticketNFT s) caller tid = Inl e)
          \<and> (caller = market (ticketNFT s) \<longrightarrow>
                markUsed (ticketNFT s) caller tid = Inl Ticket_no_valido_para_marcar_como_usado)
          \<and> (\<exists>e. markTicketUsed s caller tid = Inl (e, s))"
      by (auto simp: markUsed_def markTicketUsed_def Let_def)
  qed
  have c5: "ticketState (ticketNFT s) tid = Used \<or> ticketState (ticketNFT s) tid = Cancelled \<longrightarrow>
          ticketState (ticketNFT (exec s later)) tid = ticketState (ticketNFT s) tid"
    using final_state_exec[OF inv, of tid later] by blast
  from c1 c2 c3 c4 c5 show ?thesis by simp
qed

lemma demo_used_eq: "demo_used = apply_tx demo_sold_out demo_mark"
  by (simp add: demo_used_def demo_sold_out_def exec_append)

lemma demo_mark_succeeds:
  "markTicketUsed demo_sold_out 10 2 = Inr demo_used"
  by (simp add: demo_used_eq demo_mark_def apply_tx_def run_tx_def markTicketUsed_def markUsed_def
        getEvent_def isValidator_def demo_sold_out_facts demo_events Let_def)

lemma demo_used_state:
  "demo_used = demo_sold_out\<lparr>ticketNFT := (ticketNFT demo_sold_out)\<lparr>ticketState :=
       (ticketState (ticketNFT demo_sold_out))(2 := Used)\<rparr>\<rparr>"
  using markTicketUsed_InrD(3)[OF demo_mark_succeeds]
  by (auto dest!: markUsed_InrD(4))

lemma demo_used_facts:
  "ticketState (ticketNFT demo_used) 2 = Used"
  "market (ticketNFT demo_used) = 50"
  "owners (ticketNFT demo_used) 2 = 21"
  by (simp_all add: demo_used_state demo_sold_out_facts)

theorem ticket_states_monotonic_witness:
  "minted (ticketNFT demo_sold_out) 2 \<and> ticketState (ticketNFT demo_sold_out) 2 = Valid
   \<and> (\<exists>n'. markUsed (ticketNFT demo_sold_out) 50 2 = Inr n')
   \<and> ticketState (ticketNFT demo_used) 2 = Used
   \<and> markUsed (ticketNFT demo_used) 50 2 = Inl Ticket_no_valido_para_marcar_como_usado
   \<and> (\<exists>e. markTicketUsed demo_used 10 2 = Inl (e, demo_used))
   \<and> ticketState (ticketNFT (exec demo_used [demo_mark, demo_mark])) 2 = Used"
proof -
  have m: "minted (ticketNFT demo_sold_out) 2" and v: "ticketState (ticketNFT demo_sold_out) 2 = Valid"
    and c: "50 = market (ticketNFT demo_sold_out)"
    by (simp_all add: minted_def demo_sold_out_facts)
  have u: "ticketState (ticketNFT demo_used) 2 = Used" and c': "50 = market (ticketNFT demo_used)"
    by (simp_all add: demo_used_facts)
  note a = ticket_states_monotonic[OF demo_sold_out_def, where tid = 2 and caller = 50]
  note b = ticket_states_monotonic[OF demo_used_def, where tid = 2
      and later = "[demo_mark, demo_mark]"]
  from a m v c have 1: "\<exists>n'. markUsed (ticketNFT demo_sold_out) 50 2 = Inr n'" by blast
  from b[where caller = 50] u c'
  have 2: "markUsed (ticketNFT demo_used) 50 2 = Inl Ticket_no_valido_para_marcar_como_usado"
    by blast
  from b[where caller = 10] u have 3: "\<exists>e. markTicketUsed demo_used 10 2 = Inl (e, demo_used)"
    by blast
  from b[where caller = 10] u
  have 4: "ticketState (ticketNFT (exec demo_used [demo_mark, demo_mark])) 2 = Used" by simp
  from m v u 1 2 3 4 show ?thesis by blast
qed

lemma listing_inv_exec: "listing_inv s \<Longrightarrow> listing_inv (exec s txs)"
  by (induction txs arbitrary: s) (simp_all add: listing_inv_step)

lemma listing_inv_reached: "listing_inv (exec (deployed ro no mo ma) txs)"
  using all_inv_reached[of ro no mo ma txs] by (simp add: all_inv_def)

lemma listing_inv_active:
  "listing_inv s \<Longrightarrow> listing_active (listings (ticketMarket s) lid)
     \<Longrightarrow> lid < nextListingId (ticketMarket s)"
  by (rule ccontr) (simp add: listing_inv_def not_less)

lemma resale_count:
  assumes "listing_inv s"
  shows "length (filter (is_resale_buy lid) (successes s txs))
           \<le> (if lid < nextListingId (ticketMarket s)
                  \<and> \<not> listing_active (listings (ticketMarket s) lid) then 0 else 1)"
  using assms
proof (induction txs arbitrary: s)
  case Nil
  then show ?case by simp
next
  case (Cons t ts)
  have inv': "listing_inv (apply_tx s t)" by (rule listing_inv_step[OF Cons.prems])
  note IH = Cons.IH[OF inv']
  show ?case
  proof (cases "succeeds s t")
    case True
    then obtain s' where r: "run_tx s t = Inr s'" and a: "apply_tx s t = s'"
      using succeeds_Inr by blast
    show ?thesis
    proof (cases "is_resale_buy lid t")
      case buy: True
      note e = resale_buy_closes[OF r buy]
      from listing_inv_active[OF Cons.prems e(1)] e(3)
      have "lid < nextListingId (ticketMarket s')" by simp
      with IH a e(1,2) True buy show ?thesis by simp
    next
      case False
      have "lid < nextListingId (ticketMarket s) \<and> \<not> listing_active (listings (ticketMarket s) lid)
         \<Longrightarrow> lid < nextListingId (ticketMarket s') \<and> \<not> listing_active (listings (ticketMarket s') lid)"
        using listing_closed_step[OF r, of lid] by blast
      with IH a True False show ?thesis by (auto split: if_splits)
    qed
  next
    case False
    with IH show ?thesis by (simp add: not_succeeds_same)
  qed
qed

section \<open>Resale: the listing is closed before anything is handed over\<close>

text \<open>
  Claim C3. In \<^verbatim>\<open>buyFromResale\<close> the listing is deactivated before the payment to the
  seller and before the transfer of the ticket: when the payment reverts, the working
  state already has the listing inactive, no payment made and the token contract
  untouched; when the call reverts after the payment, the listing is inactive, the
  payment is the latest one and the token contract is still untouched. A reverted call
  commits nothing. A call that returns found the listing active and leaves it inactive,
  the seller paid and the ticket owned by the buyer, and then no \<^verbatim>\<open>buyFromResale\<close> on
  that listing id returns. In every run from deployment at most one purchase of a given
  listing id succeeds.
\<close>

theorem resale_deactivates_first:
  assumes "lst = listings (ticketMarket s) lid"
  shows
    "length (filter (is_resale_buy lid) (successes (deployed ro no mo ma) txs)) \<le> 1
     \<and> (buyFromResale s buyer paid now acc lid = Inl (Ether_transfer_failed, sf) \<longrightarrow>
          \<not> listing_active (listings (ticketMarket sf) lid)
          \<and> payments sf = payments s \<and> ticketNFT sf = ticketNFT s)
     \<and> (buyFromResale s buyer paid now acc lid = Inl (e, sf) \<and> payments sf \<noteq> payments s \<longrightarrow>
          \<not> listing_active (listings (ticketMarket sf) lid)
          \<and> payments sf = (seller lst, paid) # payments s \<and> ticketNFT sf = ticketNFT s)
     \<and> (buyFromResale s buyer paid now acc lid = Inl (e, sf) \<longrightarrow>
          apply_tx s \<lparr>sender = buyer, timestamp = now, call = BuyFromResale lid paid acc\<rparr> = s)
     \<and> (buyFromResale s buyer paid now acc lid = Inr s' \<longrightarrow>
          listing_active lst
          \<and> \<not> listing_active (listings (ticketMarket s') lid)
          \<and> payments s' = (seller lst, paid) # payments s
          \<and> owners (ticketNFT s') (tokenId lst) = buyer
          \<and> (\<forall>buyer' paid' now' acc'. \<exists>e'.
                buyFromResale s' buyer' paid' now' acc' lid = Inl (e', s')))"
proof -
  have c1: "length (filter (is_resale_buy lid) (successes (deployed ro no mo ma) txs)) \<le> 1"
    using resale_count[OF deployed_invs(5), of lid ro no mo ma txs] by (simp split: if_splits)
  have c2: "buyFromResale s buyer paid now acc lid = Inl (Ether_transfer_failed, sf) \<longrightarrow>
          \<not> listing_active (listings (ticketMarket sf) lid)
          \<and> payments sf = payments s \<and> ticketNFT sf = ticketNFT s"
    by (auto simp: buyFromResale_def transferFrom_def isAuthorized_def Let_def
             split: if_splits sum.splits)
  have c3: "buyFromResale s buyer paid now acc lid = Inl (e, sf) \<and> payments sf \<noteq> payments s \<longrightarrow>
          \<not> listing_active (listings (ticketMarket sf) lid)
          \<and> payments sf = (seller lst, paid) # payments s \<and> ticketNFT sf = ticketNFT s"
    unfolding assms
    by (auto simp: buyFromResale_def Let_def split: if_splits sum.splits)
  have c4: "buyFromResale s buyer paid now acc lid = Inl (e, sf) \<longrightarrow>
          apply_tx s \<lparr>sender = buyer, timestamp = now, call = BuyFromResale lid paid acc\<rparr> = s"
    by (auto simp: run_tx_BuyFromResale intro: apply_tx_reverted)
  have c5: "buyFromResale s buyer paid now acc lid = Inr s' \<longrightarrow>
          listing_active lst
          \<and> \<not> listing_active (listings (ticketMarket s') lid)
          \<and> payments s' = (seller lst, paid) # payments s
          \<and> owners (ticketNFT s') (tokenId lst) = buyer
          \<and> (\<forall>buyer' paid' now' acc'. \<exists>e'.
                buyFromResale s' buyer' paid' now' acc' lid = Inl (e', s'))"
  proof
    assume ok: "buyFromResale s buyer paid now acc lid = Inr s'"
    from buyFromResale_InrD(5)[OF ok] obtain n where
      tr: "transferFrom (ticketNFT s) (marketAddress s) (marketAddress s) buyer (tokenId lst) = Inr n"
      and s': "s' = s\<lparr>ticketNFT := n,
                 payments := (seller lst, paid) # payments s,
                 ticketMarket := (ticketMarket s)\<lparr>
                   listings := (listings (ticketMarket s))
                     (lid := lst\<lparr>listing_active := False\<rparr>)\<rparr>\<rparr>"
      unfolding assms by blast
    have closed: "\<not> listing_active (listings (ticketMarket s') lid)" by (simp add: s')
    then have "\<And>buyer' paid' now' acc'.
        buyFromResale s' buyer' paid' now' acc' lid = Inl (Listing_inactiva, s')"
      by (simp add: buyFromResale_def Let_def)
    then have again: "\<forall>buyer' paid' now' acc'. \<exists>e'.
                buyFromResale s' buyer' paid' now' acc' lid = Inl (e', s')" by blast
    have own: "owners (ticketNFT s') (tokenId lst) = buyer"
      using transferFrom_InrD(4)[OF tr] by (simp add: s')
    have pay: "payments s' = (seller lst, paid) # payments s" by (simp add: s')
    have act: "listing_active lst" unfolding assms by (rule buyFromResale_InrD(1)[OF ok])
    from act closed pay own again
    show "listing_active lst
          \<and> \<not> listing_active (listings (ticketMarket s') lid)
          \<and> payments s' = (seller lst, paid) # payments s
          \<and> owners (ticketNFT s') (tokenId lst) = buyer
          \<and> (\<forall>buyer' paid' now' acc'. \<exists>e'.
                buyFromResale s' buyer' paid' now' acc' lid = Inl (e', s'))"
      by blast
  qed
  from c1 c2 c3 c4 c5 show ?thesis by blast
qed

lemma demo_resold_eq: "demo_resold = apply_tx demo_listed demo_resale"
  by (simp add: demo_resold_def demo_listed_def exec_append)

lemma demo_resale_ok: "buyFromResale demo_listed 23 125 10 True 0 = Inr demo_resold"
  by (simp add: demo_resold_eq demo_resale_succeeds)

theorem resale_deactivates_first_witness:
  "buyFromResale demo_listed 23 125 10 False 0
      = Inl (Ether_transfer_failed, demo_listed\<lparr>ticketMarket := (ticketMarket demo_listed)\<lparr>listings :=
          (listings (ticketMarket demo_listed))(0 := (listings (ticketMarket demo_listed) 0)\<lparr>listing_active := False\<rparr>)\<rparr>\<rparr>)
   \<and> apply_tx demo_listed \<lparr>sender = 23, timestamp = 10, call = BuyFromResale 0 125 False\<rparr> = demo_listed
   \<and> buyFromResale demo_listed 23 125 10 True 0 = Inr demo_resold
   \<and> listing_active (listings (ticketMarket demo_listed) 0)
   \<and> \<not> listing_active (listings (ticketMarket demo_resold) 0)
   \<and> payments demo_resold = (20, 125) # payments demo_listed
   \<and> owners (ticketNFT demo_resold) 1 = 23
   \<and> (\<exists>e'. buyFromResale demo_resold 24 125 11 True 0 = Inl (e', demo_resold))"
proof -
  let ?sf = "demo_listed\<lparr>ticketMarket := (ticketMarket demo_listed)\<lparr>listings :=
          (listings (ticketMarket demo_listed))(0 := (listings (ticketMarket demo_listed) 0)\<lparr>listing_active := False\<rparr>)\<rparr>\<rparr>"
  have f: "buyFromResale demo_listed 23 125 10 False 0 = Inl (Ether_transfer_failed, ?sf)"
    by (simp add: buyFromResale_def getEvent_def demo_listed_facts demo_events Let_def)
  note a = resale_deactivates_first[OF refl, where s = demo_listed and lid = 0 and buyer = 23
      and paid = 125 and now = 10]
  from a[where acc = False and e = Ether_transfer_failed and sf = ?sf] f
  have 1: "apply_tx demo_listed \<lparr>sender = 23, timestamp = 10, call = BuyFromResale 0 125 False\<rparr> = demo_listed"
    by blast
  from a[where acc = True and s' = demo_resold] demo_resale_ok
  have 2: "listing_active (listings (ticketMarket demo_listed) 0)
          \<and> \<not> listing_active (listings (ticketMarket demo_resold) 0)
          \<and> payments demo_resold = (seller (listings (ticketMarket demo_listed) 0), 125) # payments demo_listed
          \<and> owners (ticketNFT demo_resold) (tokenId (listings (ticketMarket demo_listed) 0)) = 23
          \<and> (\<forall>buyer' paid' now' acc'. \<exists>e'.
                buyFromResale demo_resold buyer' paid' now' acc' 0 = Inl (e', demo_resold))"
    by blast
  then have 3: "\<exists>e'. buyFromResale demo_resold 24 125 11 True 0 = Inl (e', demo_resold)"
    by blast
  from 2 have 4: "payments demo_resold = (20, 125) # payments demo_listed"
    and 5: "owners (ticketNFT demo_resold) 1 = 23"
    by (simp_all add: demo_listed_facts)
  from f 1 2 3 4 5 demo_resale_ok show ?thesis by blast
qed

lemma primary_buy_count:
  "bought (buyerState (ticketMarket (exec s txs)) eid w)
     = bought (buyerState (ticketMarket s) eid w)
       + length (filter (is_primary_buy eid w) (successes s txs))"
proof (induction txs arbitrary: s)
  case Nil
  then show ?case by simp
next
  case (Cons t ts)
  show ?case
  proof (cases "succeeds s t")
    case True
    then obtain s' where r: "run_tx s t = Inr s'" and a: "apply_tx s t = s'"
      using succeeds_Inr by blast
    show ?thesis
    proof (cases "is_primary_buy eid w t")
      case buy: True
      from buyerState_bought(1)[OF r buy] Cons.IH[of s'] a True buy show ?thesis by simp
    next
      case False
      from buyerState_other[OF r False] Cons.IH[of s'] a True False show ?thesis by simp
    qed
  next
    case False
    with Cons.IH[of s] show ?thesis by (simp add: not_succeeds_same)
  qed
qed

lemma wallet_inv_reached: "wallet_inv (exec (deployed ro no mo ma) txs)"
  using all_inv_reached[of ro no mo ma txs] by (simp add: all_inv_def)

section \<open>Primary sale: the per-wallet limit\<close>

text \<open>
  Claim C5. For an event with \<^verbatim>\<open>maxTicketsPerWallet\<close> \<open>= N > 0\<close> and any wallet, at most
  \<open>N\<close> calls of \<^verbatim>\<open>buyPrimary\<close> by that wallet for that event succeed in a run from
  deployment. Once \<open>N\<close> have succeeded, a further call by the wallet reverts with no write
  and mints nothing; the reason is \<^verbatim>\<open>Limite de tickets por cartera alcanzado\<close> (a state
  conflict) whenever the checks the source makes before the limit hold (event exists,
  active, not occurred, exact payment, capacity left). \<open>N < UINT256_MAX\<close> holds for every
  value of the field's type \<^verbatim>\<open>uint16\<close>.
\<close>

theorem per_wallet_limit:
  assumes "s = exec (deployed ro no mo ma) txs"
    and "evt = events (eventRegistry s) eid"
    and "N = maxTicketsPerWallet evt"
    and "bought_so_far = length (filter (is_primary_buy eid w) (successes (deployed ro no mo ma) txs))"
  shows
    "(0 < N \<longrightarrow> bought_so_far \<le> N)
     \<and> (0 < N \<and> bought_so_far = N \<longrightarrow>
          (\<exists>e. buyPrimary s w paid now acc eid = Inl (e, s))
          \<and> apply_tx s \<lparr>sender = w, timestamp = now, call = BuyPrimary eid paid acc\<rparr> = s)
     \<and> (0 < N \<and> bought_so_far = N \<and> N < UINT256_MAX
          \<and> organizer evt \<noteq> 0 \<and> active evt \<and> now < date evt \<and> paid = basePriceWei evt
          \<and> mintedTicketsPerEvent (ticketMarket s) eid < totalTickets evt \<longrightarrow>
          buyPrimary s w paid now acc eid = Inl (Limite_de_tickets_por_cartera_alcanzado, s))
     \<and> error_class Limite_de_tickets_por_cartera_alcanzado = Some StateConflictError"
proof -
  have b: "bought (buyerState (ticketMarket s) eid w) = bought_so_far"
    unfolding assms(1,4) using primary_buy_count[of "deployed ro no mo ma" txs eid w]
    by (simp add: deployed_def)
  have inv: "wallet_inv s" unfolding assms(1) by (rule wallet_inv_reached)
  have c1: "0 < N \<longrightarrow> bought_so_far \<le> N"
    using inv b unfolding assms(2,3) wallet_inv_def by metis
  have c2: "0 < N \<and> bought_so_far = N \<longrightarrow>
          (\<exists>e. buyPrimary s w paid now acc eid = Inl (e, s))"
    using b unfolding assms(2,3)
    by (auto simp: buyPrimary_def getEvent_def Let_def)
  then have c2': "0 < N \<and> bought_so_far = N \<longrightarrow>
          apply_tx s \<lparr>sender = w, timestamp = now, call = BuyPrimary eid paid acc\<rparr> = s"
    by (auto simp: run_tx_BuyPrimary intro: apply_tx_reverted)
  have c3: "0 < N \<and> bought_so_far = N \<and> N < UINT256_MAX
          \<and> organizer evt \<noteq> 0 \<and> active evt \<and> now < date evt \<and> paid = basePriceWei evt
          \<and> mintedTicketsPerEvent (ticketMarket s) eid < totalTickets evt \<longrightarrow>
          buyPrimary s w paid now acc eid = Inl (Limite_de_tickets_por_cartera_alcanzado, s)"
    using b unfolding assms(2,3)
    by (auto simp: buyPrimary_def getEvent_def Let_def)
  from c1 c2 c2' c3 show ?thesis by simp
qed

lemma demo_one_sold_eq: "demo_one_sold = apply_tx demo_start (demo_buy 20 0 7)"
  by (simp add: demo_one_sold_def demo_start_def exec_append)

lemma demo_one_sold_facts:
  "events (eventRegistry demo_one_sold) = events (eventRegistry demo_start)"
  "bought (buyerState (ticketMarket demo_one_sold) 0 20) = Suc 0"
  "mintedTicketsPerEvent (ticketMarket demo_one_sold) 0 = Suc 0"
  by (simp_all add: demo_one_sold_eq demo_start_eq demo_buy_def eval_defs)

theorem per_wallet_limit_witness:
  "maxTicketsPerWallet (events (eventRegistry demo_one_sold) 0) = 1
   \<and> length (filter (is_primary_buy 0 20) (successes (deployed 31 32 33 50) (demo_setup @ [demo_buy 20 0 7]))) = 1
   \<and> buyPrimary demo_one_sold 20 100 8 True 0
        = Inl (Limite_de_tickets_por_cartera_alcanzado, demo_one_sold)
   \<and> apply_tx demo_one_sold \<lparr>sender = 20, timestamp = 8, call = BuyPrimary 0 100 True\<rparr> = demo_one_sold"
proof -
  have n: "maxTicketsPerWallet (events (eventRegistry demo_one_sold) 0) = 1"
    by (simp add: demo_one_sold_facts demo_events)
  have c: "length (filter (is_primary_buy 0 20)
             (successes (deployed 31 32 33 50) (demo_setup @ [demo_buy 20 0 7]))) = 1"
  proof -
    have z: "bought (buyerState (ticketMarket (deployed 31 32 33 50)) 0 20) = 0"
      by (simp add: deployed_def)
    have "bought (buyerState (ticketMarket demo_one_sold) 0 20)
        = length (filter (is_primary_buy 0 20)
             (successes (deployed 31 32 33 50) (demo_setup @ [demo_buy 20 0 7])))"
      unfolding demo_one_sold_def
      using primary_buy_count[of "deployed 31 32 33 50" "demo_setup @ [demo_buy 20 0 7]" 0 20] z
      by simp
    then show ?thesis by (simp add: demo_one_sold_facts)
  qed
  have pre: "organizer (events (eventRegistry demo_one_sold) 0) \<noteq> 0
      \<and> active (events (eventRegistry demo_one_sold) 0)
      \<and> 8 < date (events (eventRegistry demo_one_sold) 0)
      \<and> 100 = basePriceWei (events (eventRegistry demo_one_sold) 0)
      \<and> mintedTicketsPerEvent (ticketMarket demo_one_sold) 0
           < totalTickets (events (eventRegistry demo_one_sold) 0)"
    and small: "maxTicketsPerWallet (events (eventRegistry demo_one_sold) 0) < UINT256_MAX"
    by (simp_all add: demo_one_sold_facts demo_events UINT256_MAX_def)
  note t = per_wallet_limit[OF demo_one_sold_def refl refl refl, where eid = 0 and w = 20
      and paid = 100 and now = 8 and acc = True]
  from t n c pre small
  have 1: "buyPrimary demo_one_sold 20 100 8 True 0
        = Inl (Limite_de_tickets_por_cartera_alcanzado, demo_one_sold)"
    by simp
  from t n c
  have 2: "apply_tx demo_one_sold \<lparr>sender = 20, timestamp = 8, call = BuyPrimary 0 100 True\<rparr>
        = demo_one_sold"
    by simp
  from n c 1 2 show ?thesis by blast
qed

section \<open>Primary sale: the cooldown\<close>

lemma registry_inv_exec: "registry_inv s \<Longrightarrow> registry_inv (exec s txs)"
  by (induction txs arbitrary: s) (simp_all add: registry_inv_step)

lemma event_config_apply:
  assumes "eid < nextEventId (eventRegistry s)"
  shows "eid < nextEventId (eventRegistry (apply_tx s t))
     \<and> walletCooldown (events (eventRegistry (apply_tx s t)) eid)
         = walletCooldown (events (eventRegistry s) eid)"
proof (cases "succeeds s t")
  case True
  then obtain s' where r: "run_tx s t = Inr s'" and a: "apply_tx s t = s'"
    using succeeds_Inr by blast
  from event_config_step[OF r assms] a show ?thesis by simp
next
  case False
  with assms show ?thesis by (simp add: not_succeeds_same)
qed

lemma event_config_exec:
  assumes "eid < nextEventId (eventRegistry s)"
  shows "walletCooldown (events (eventRegistry (exec s txs)) eid)
         = walletCooldown (events (eventRegistry s) eid)"
  using assms
proof (induction txs arbitrary: s)
  case Nil
  then show ?case by simp
next
  case (Cons t ts)
  from event_config_apply[OF Cons.prems, of t] Cons.IH[of "apply_tx s t"]
  show ?case by simp
qed

lemma cooldown_sorted:
  assumes "registry_inv s"
    and "\<forall>t\<in>set txs. is_primary_buy eid w t \<longrightarrow> 0 < timestamp t \<and> timestamp t < 2 ^ 64"
    and "walletCooldown (events (eventRegistry (exec s txs)) eid) = C"
    and "0 < C"
  shows "sorted_wrt (\<lambda>a b. a + C \<le> b)
           (map timestamp (filter (is_primary_buy eid w) (successes s txs)))
     \<and> (lastBuyTs (buyerState (ticketMarket s) eid w) \<noteq> 0 \<longrightarrow>
          (\<forall>x\<in>set (filter (is_primary_buy eid w) (successes s txs)).
              lastBuyTs (buyerState (ticketMarket s) eid w) + C \<le> timestamp x))"
  using assms(1,2,3)
proof (induction txs arbitrary: s)
  case Nil
  then show ?case by simp
next
  case (Cons t ts)
  let ?last = "\<lambda>s. lastBuyTs (buyerState (ticketMarket s) eid w)"
  let ?rest = "filter (is_primary_buy eid w) (successes (apply_tx s t) ts)"
  have inv': "registry_inv (apply_tx s t)" by (rule registry_inv_step[OF Cons.prems(1)])
  have ts: "\<forall>t\<in>set ts. is_primary_buy eid w t \<longrightarrow> 0 < timestamp t \<and> timestamp t < 2 ^ 64"
    using Cons.prems(2) by simp
  have fin: "walletCooldown (events (eventRegistry (exec (apply_tx s t) ts)) eid) = C"
    using Cons.prems(3) by simp
  from Cons.IH[OF inv' ts fin]
  have IH1: "sorted_wrt (\<lambda>a b. a + C \<le> b) (map timestamp ?rest)"
    and IH2: "?last (apply_tx s t) \<noteq> 0 \<Longrightarrow> \<forall>x\<in>set ?rest. ?last (apply_tx s t) + C \<le> timestamp x"
    by simp_all
  show ?case
  proof (cases "succeeds s t \<and> is_primary_buy eid w t")
    case True
    then obtain s' where r: "run_tx s t = Inr s'" and a: "apply_tx s t = s'"
      using succeeds_Inr by blast
    from True have buy: "is_primary_buy eid w t" by simp
    with Cons.prems(2) have range: "0 < timestamp t" "timestamp t < 2 ^ 64" by simp_all
    note e = buyerState_bought[OF r buy]
    have last': "?last (apply_tx s t) = timestamp t" using e(2) range a by simp
    have old: "eid < nextEventId (eventRegistry s)"
      by (rule registry_inv_organizer[OF Cons.prems(1) e(3)])
    have cfg: "walletCooldown (events (eventRegistry s) eid) = C"
      using event_config_exec[OF old, of "t # ts"] Cons.prems(3) by simp
    have after: "\<forall>x\<in>set ?rest. timestamp t + C \<le> timestamp x"
      using IH2 last' range(1) by simp
    have before: "?last s \<noteq> 0 \<Longrightarrow> ?last s + C \<le> timestamp t"
      using e(4) cfg assms(4) by simp
    have "sorted_wrt (\<lambda>a b. a + C \<le> b) (map timestamp (t # ?rest))"
      using IH1 after by simp
    moreover have "?last s \<noteq> 0 \<longrightarrow> (\<forall>x\<in>set (t # ?rest). ?last s + C \<le> timestamp x)"
    proof
      assume nz: "?last s \<noteq> 0"
      from before[OF nz] after show "\<forall>x\<in>set (t # ?rest). ?last s + C \<le> timestamp x"
        by fastforce
    qed
    ultimately show ?thesis using True by simp
  next
    case False
    have same: "?last (apply_tx s t) = ?last s"
    proof (cases "succeeds s t")
      case True
      then obtain s' where r: "run_tx s t = Inr s'" and a: "apply_tx s t = s'"
        using succeeds_Inr by blast
      from True False have "\<not> is_primary_buy eid w t" by simp
      from buyerState_other[OF r this] a show ?thesis by simp
    next
      case False
      then show ?thesis by (simp add: not_succeeds_same)
    qed
    have "filter (is_primary_buy eid w) (successes s (t # ts)) = ?rest"
      using False by auto
    with IH1 IH2 same show ?thesis by simp
  qed
qed

lemma cooldown_blocks:
  assumes "0 < walletCooldown (events (eventRegistry s) eid)"
    and "lastBuyTs (buyerState (ticketMarket s) eid w) \<noteq> 0"
    and "now < lastBuyTs (buyerState (ticketMarket s) eid w)
                 + walletCooldown (events (eventRegistry s) eid)"
  shows "\<exists>e. buyPrimary s w paid now acc eid = Inl (e, s)"
  using assms by (auto simp: buyPrimary_def getEvent_def Let_def)

lemma successes_subset: "set (successes s txs) \<subseteq> set txs"
  by (induction txs arbitrary: s) auto

lemma last_buy_time:
  assumes "\<forall>t\<in>set txs. is_primary_buy eid w t \<longrightarrow> 0 < timestamp t \<and> timestamp t < 2 ^ 64"
  shows "lastBuyTs (buyerState (ticketMarket (exec s txs)) eid w)
     = (if filter (is_primary_buy eid w) (successes s txs) = []
        then lastBuyTs (buyerState (ticketMarket s) eid w)
        else last (map timestamp (filter (is_primary_buy eid w) (successes s txs))))"
  using assms
proof (induction txs arbitrary: s)
  case Nil
  then show ?case by simp
next
  case (Cons t ts)
  let ?rest = "filter (is_primary_buy eid w) (successes (apply_tx s t) ts)"
  have ts: "\<forall>t\<in>set ts. is_primary_buy eid w t \<longrightarrow> 0 < timestamp t \<and> timestamp t < 2 ^ 64"
    using Cons.prems by simp
  note IH = Cons.IH[OF ts, of "apply_tx s t"]
  show ?case
  proof (cases "succeeds s t \<and> is_primary_buy eid w t")
    case True
    then obtain s' where r: "run_tx s t = Inr s'" and a: "apply_tx s t = s'"
      using succeeds_Inr by blast
    from True have buy: "is_primary_buy eid w t" by simp
    with Cons.prems have "timestamp t < 2 ^ 64" by simp
    with buyerState_bought(2)[OF r buy] a
    have "lastBuyTs (buyerState (ticketMarket (apply_tx s t)) eid w) = timestamp t" by simp
    with IH True show ?thesis by simp
  next
    case False
    have same: "lastBuyTs (buyerState (ticketMarket (apply_tx s t)) eid w)
        = lastBuyTs (buyerState (ticketMarket s) eid w)"
    proof (cases "succeeds s t")
      case True
      then obtain s' where r: "run_tx s t = Inr s'" and a: "apply_tx s t = s'"
        using succeeds_Inr by blast
      from True False have "\<not> is_primary_buy eid w t" by simp
      from buyerState_other[OF r this] a show ?thesis by simp
    next
      case False
      then show ?thesis by (simp add: not_succeeds_same)
    qed
    have "filter (is_primary_buy eid w) (successes s (t # ts)) = ?rest"
      using False by auto
    with IH same show ?thesis by simp
  qed
qed

text \<open>
  Claim C6. \<^verbatim>\<open>block.timestamp\<close> is the Unix time of the block, in seconds: on a chain it
  is positive and fits 64 bits, which is the range \<open>0 < t < 2 ^ 64\<close> of the hypothesis
  below (the source itself keeps it in a \<^verbatim>\<open>uint64\<close>). For an event with cooldown
  \<open>C > 0\<close>, in every run from deployment in which the wallet's \<^verbatim>\<open>buyPrimary\<close> calls for
  the event are made at such block times, the times of the wallet's successful purchases
  for the event are pairwise at least \<open>C\<close> apart; the stored \<^verbatim>\<open>lastBuyTs\<close> is the time of
  the wallet's last successful purchase; and a purchase attempted earlier than that time
  plus \<open>C\<close> reverts with no write, the transaction leaving the state as it was. The
  same revert holds in any reached state for a stored, nonzero \<^verbatim>\<open>lastBuyTs\<close>.
\<close>

theorem cooldown_separates:
  assumes "s = exec (deployed ro no mo ma) txs"
    and "C = walletCooldown (events (eventRegistry s) eid)"
    and "bought_at = map timestamp (filter (is_primary_buy eid w) (successes (deployed ro no mo ma) txs))"
  shows
    "(0 < C \<and> (\<forall>t\<in>set txs. is_primary_buy eid w t \<longrightarrow> 0 < timestamp t \<and> timestamp t < 2 ^ 64) \<longrightarrow>
        sorted_wrt (\<lambda>a b. a + C \<le> b)
          (map timestamp (filter (is_primary_buy eid w) (successes (deployed ro no mo ma) txs))))
     \<and> (0 < C \<and> lastBuyTs (buyerState (ticketMarket s) eid w) \<noteq> 0
          \<and> now < lastBuyTs (buyerState (ticketMarket s) eid w) + C \<longrightarrow>
          (\<exists>e. buyPrimary s w paid now acc eid = Inl (e, s))
          \<and> apply_tx s \<lparr>sender = w, timestamp = now, call = BuyPrimary eid paid acc\<rparr> = s)
     \<and> (0 < C \<and> (\<forall>t\<in>set txs. is_primary_buy eid w t \<longrightarrow> 0 < timestamp t \<and> timestamp t < 2 ^ 64)
          \<and> bought_at \<noteq> [] \<and> now < last bought_at + C \<longrightarrow>
          lastBuyTs (buyerState (ticketMarket s) eid w) = last bought_at
          \<and> (\<exists>e. buyPrimary s w paid now acc eid = Inl (e, s))
          \<and> apply_tx s \<lparr>sender = w, timestamp = now, call = BuyPrimary eid paid acc\<rparr> = s)"
proof -
  have blocked: "\<exists>e. buyPrimary s w paid now acc eid = Inl (e, s)
      \<Longrightarrow> apply_tx s \<lparr>sender = w, timestamp = now, call = BuyPrimary eid paid acc\<rparr> = s"
    by (auto simp: run_tx_BuyPrimary intro: apply_tx_reverted)
  have c1: "0 < C \<and> (\<forall>t\<in>set txs. is_primary_buy eid w t \<longrightarrow> 0 < timestamp t \<and> timestamp t < 2 ^ 64) \<longrightarrow>
        sorted_wrt (\<lambda>a b. a + C \<le> b)
          (map timestamp (filter (is_primary_buy eid w) (successes (deployed ro no mo ma) txs)))"
    using cooldown_sorted[OF deployed_invs(1), of txs eid w ro no mo ma C] assms(1,2) by blast
  have c2: "0 < C \<and> lastBuyTs (buyerState (ticketMarket s) eid w) \<noteq> 0
          \<and> now < lastBuyTs (buyerState (ticketMarket s) eid w) + C \<longrightarrow>
          (\<exists>e. buyPrimary s w paid now acc eid = Inl (e, s))
          \<and> apply_tx s \<lparr>sender = w, timestamp = now, call = BuyPrimary eid paid acc\<rparr> = s"
    unfolding assms(2) using cooldown_blocks[of s eid w now paid acc] blocked by blast
  have c3: "0 < C \<and> (\<forall>t\<in>set txs. is_primary_buy eid w t \<longrightarrow> 0 < timestamp t \<and> timestamp t < 2 ^ 64)
          \<and> bought_at \<noteq> [] \<and> now < last bought_at + C \<longrightarrow>
          lastBuyTs (buyerState (ticketMarket s) eid w) = last bought_at
          \<and> (\<exists>e. buyPrimary s w paid now acc eid = Inl (e, s))
          \<and> apply_tx s \<lparr>sender = w, timestamp = now, call = BuyPrimary eid paid acc\<rparr> = s"
  proof
    assume h: "0 < C \<and> (\<forall>t\<in>set txs. is_primary_buy eid w t \<longrightarrow> 0 < timestamp t \<and> timestamp t < 2 ^ 64)
          \<and> bought_at \<noteq> [] \<and> now < last bought_at + C"
    then have range: "\<forall>t\<in>set txs. is_primary_buy eid w t \<longrightarrow> 0 < timestamp t \<and> timestamp t < 2 ^ 64"
      and ne: "bought_at \<noteq> []" by simp_all
    from ne have ne': "filter (is_primary_buy eid w) (successes (deployed ro no mo ma) txs) \<noteq> []"
      unfolding assms(3) by simp
    have stored: "lastBuyTs (buyerState (ticketMarket s) eid w) = last bought_at"
      unfolding assms(1,3) using last_buy_time[OF range, of "deployed ro no mo ma"] ne' by simp
    from ne' have "last (filter (is_primary_buy eid w) (successes (deployed ro no mo ma) txs))
        \<in> set (filter (is_primary_buy eid w) (successes (deployed ro no mo ma) txs))"
      by (rule last_in_set)
    then have inrun: "last (filter (is_primary_buy eid w) (successes (deployed ro no mo ma) txs)) \<in> set txs"
      and isbuy: "is_primary_buy eid w
          (last (filter (is_primary_buy eid w) (successes (deployed ro no mo ma) txs)))"
      using successes_subset[of "deployed ro no mo ma" txs] by auto
    have "last bought_at = timestamp (last (filter (is_primary_buy eid w) (successes (deployed ro no mo ma) txs)))"
      unfolding assms(3) using ne' by (simp add: last_map)
    with range inrun isbuy have pos: "last bought_at \<noteq> 0" by auto
    from h stored pos c2 show "lastBuyTs (buyerState (ticketMarket s) eid w) = last bought_at
          \<and> (\<exists>e. buyPrimary s w paid now acc eid = Inl (e, s))
          \<and> apply_tx s \<lparr>sender = w, timestamp = now, call = BuyPrimary eid paid acc\<rparr> = s"
      by simp
  qed
  from c1 c2 c3 show ?thesis by blast
qed

lemma successes_append:
  "successes s (xs @ ys) = successes s xs @ successes (exec s xs) ys"
  by (induction xs arbitrary: s) simp_all

lemma demo_setup_successes: "successes (deployed 31 32 33 50) demo_setup = demo_setup"
  by (simp add: demo_defs eval_defs)

lemma demo_setup_no_buys: "filter (is_primary_buy eid w) demo_setup = []"
  by (simp add: demo_defs is_primary_buy_def)

lemma demo_far_eq:
  "demo_far =
     \<lparr>eventRegistry =
        \<lparr>owner = 31, nextEventId = Suc 0,
         events = (\<lambda>_. zero_event)
           (0 := \<lparr>event_id = 0, name = ''Far'', date = 2 ^ 70, location = ''Orbit'',
                  basePriceWei = 100, maxResaleFactor = 130, totalTickets = 5,
                  metadataCid = ''cid'', organizer = 10, active = True,
                  maxTicketsPerWallet = 0, walletCooldown = 60\<rparr>),
         validators = (\<lambda>_ _. False)\<rparr>,
      ticketNFT =
        \<lparr>owner = 32, nextTokenId = 0, ticketState = (\<lambda>_. TicketState_None),
         ticketEvent = (\<lambda>_. 0), owners = (\<lambda>_. 0), market = 50\<rparr>,
      ticketMarket =
        \<lparr>owner = 33, nextListingId = 0,
         listings = (\<lambda>_. \<lparr>tokenId = 0, seller = 0, priceWei = 0, listing_active = False\<rparr>),
         mintedTicketsPerEvent = (\<lambda>_. 0),
         buyerState = (\<lambda>_ _. \<lparr>bought = 0, lastBuyTs = 0\<rparr>)\<rparr>,
      marketAddress = 50,
      payments = []\<rparr>"
  by (simp add: demo_defs eval_defs)

lemma demo_zero_time_buys:
  "successes demo_start [demo_buy 20 (Suc 0) 0, demo_buy 20 (Suc 0) (Suc 0)]
     = [demo_buy 20 (Suc 0) 0, demo_buy 20 (Suc 0) (Suc 0)]"
  by (simp add: demo_start_eq demo_buy_def eval_defs)

lemma demo_far_buys:
  "successes demo_far [demo_buy 20 0 (2 ^ 64), demo_buy 20 0 (2 ^ 64 + 1)]
     = [demo_buy 20 0 (2 ^ 64), demo_buy 20 0 (2 ^ 64 + 1)]"
  by (simp add: demo_far_eq demo_buy_def eval_defs)

text \<open>
  The range of the block times cannot be dropped from the model, whose block times are
  all naturals: a purchase at time \<open>0\<close>, or at time \<open>2 ^ 64\<close> (stored as \<open>0\<close> by the
  conversion to \<^verbatim>\<open>uint64\<close>), leaves \<open>0\<close> in \<^verbatim>\<open>lastBuyTs\<close>, which the guard
  \<^verbatim>\<open>st.lastBuyTs != 0\<close> reads as "no purchase yet".
\<close>

lemma cooldown_outside_block_times:
  "walletCooldown (events (eventRegistry demo_start) 1) = 60
   \<and> map timestamp (filter (is_primary_buy 1 20)
        (successes (deployed 31 32 33 50) (demo_setup @ [demo_buy 20 1 0, demo_buy 20 1 1]))) = [0, 1]
   \<and> \<not> sorted_wrt (\<lambda>a b. a + 60 \<le> b) [0, 1 :: nat]
   \<and> walletCooldown (events (eventRegistry demo_far) 0) = 60
   \<and> map timestamp (filter (is_primary_buy 0 20)
        (successes demo_far [demo_buy 20 0 (2 ^ 64), demo_buy 20 0 (2 ^ 64 + 1)]))
        = [2 ^ 64, 2 ^ 64 + 1]
   \<and> \<not> sorted_wrt (\<lambda>a b. a + 60 \<le> b) [2 ^ 64, 2 ^ 64 + 1 :: nat]"
proof -
  have 1: "walletCooldown (events (eventRegistry demo_start) 1) = 60"
    by (simp add: demo_events)
  have 2: "map timestamp (filter (is_primary_buy 1 20)
        (successes (deployed 31 32 33 50) (demo_setup @ [demo_buy 20 1 0, demo_buy 20 1 1]))) = [0, 1]"
    by (simp del: successes.simps add: successes_append demo_setup_successes demo_setup_no_buys
          demo_start_def[symmetric] demo_zero_time_buys)
       (simp add: demo_buy_def is_primary_buy_def)
  have 3: "walletCooldown (events (eventRegistry demo_far) 0) = 60"
    by (simp add: demo_far_eq)
  have 4: "map timestamp (filter (is_primary_buy 0 20)
        (successes demo_far [demo_buy 20 0 (2 ^ 64), demo_buy 20 0 (2 ^ 64 + 1)]))
        = [2 ^ 64, 2 ^ 64 + 1]"
    by (simp only: demo_far_buys) (simp add: demo_buy_def is_primary_buy_def)
  from 1 2 3 4 show ?thesis by simp
qed

lemma demo_cooled_eq: "demo_cooled = apply_tx demo_start (demo_buy 20 1 7)"
  by (simp add: demo_cooled_def demo_start_def exec_append)

lemma demo_cooled_facts:
  "events (eventRegistry demo_cooled) = events (eventRegistry demo_start)"
  "lastBuyTs (buyerState (ticketMarket demo_cooled) (Suc 0) 20) = 7"
  by (simp_all add: demo_cooled_eq demo_start_eq demo_buy_def eval_defs)

lemma demo_cooldown_buys:
  "successes demo_start [demo_buy 20 (Suc 0) 7, demo_buy 20 (Suc 0) 30, demo_buy 20 (Suc 0) 67]
     = [demo_buy 20 (Suc 0) 7, demo_buy 20 (Suc 0) 67]"
  by (simp add: demo_start_eq demo_buy_def eval_defs)

lemma demo_cooldown_final:
  "events (eventRegistry (exec (deployed 31 32 33 50) demo_cooldown_run))
     = events (eventRegistry demo_start)"
  by (simp add: demo_cooldown_run_def exec_append demo_start_def[symmetric])
     (simp add: demo_start_eq demo_buy_def eval_defs)

lemma demo_first_cooldown_buy:
  "successes demo_start [demo_buy 20 (Suc 0) 7] = [demo_buy 20 (Suc 0) 7]"
  by (simp add: demo_start_eq demo_buy_def eval_defs)

theorem cooldown_separates_witness:
  "walletCooldown (events (eventRegistry (exec (deployed 31 32 33 50) demo_cooldown_run)) 1) = 60
   \<and> map timestamp (filter (is_primary_buy 1 20)
        (successes (deployed 31 32 33 50) demo_cooldown_run)) = [7, 67]
   \<and> sorted_wrt (\<lambda>a b. a + 60 \<le> b)
        (map timestamp (filter (is_primary_buy 1 20)
           (successes (deployed 31 32 33 50) demo_cooldown_run)))
   \<and> map timestamp (filter (is_primary_buy 1 20)
        (successes (deployed 31 32 33 50) (demo_setup @ [demo_buy 20 1 7]))) = [7]
   \<and> lastBuyTs (buyerState (ticketMarket demo_cooled) 1 20) = 7
   \<and> (\<exists>e. buyPrimary demo_cooled 20 100 30 True 1 = Inl (e, demo_cooled))
   \<and> apply_tx demo_cooled \<lparr>sender = 20, timestamp = 30, call = BuyPrimary 1 100 True\<rparr> = demo_cooled"
proof -
  have c: "walletCooldown (events (eventRegistry (exec (deployed 31 32 33 50) demo_cooldown_run)) 1) = 60"
    by (simp add: demo_cooldown_final demo_events)
  have l: "map timestamp (filter (is_primary_buy 1 20)
        (successes (deployed 31 32 33 50) demo_cooldown_run)) = [7, 67]"
    by (simp del: successes.simps add: demo_cooldown_run_def successes_append
          demo_setup_successes demo_setup_no_buys demo_start_def[symmetric] demo_cooldown_buys)
       (simp add: demo_buy_def is_primary_buy_def)
  have r: "\<forall>t\<in>set demo_cooldown_run.
        is_primary_buy 1 20 t \<longrightarrow> 0 < timestamp t \<and> timestamp t < 2 ^ 64"
    by (simp add: demo_defs is_primary_buy_def)
  have l': "map timestamp (filter (is_primary_buy 1 20)
        (successes (deployed 31 32 33 50) (demo_setup @ [demo_buy 20 1 7]))) = [7]"
    by (simp del: successes.simps add: successes_append
          demo_setup_successes demo_setup_no_buys demo_start_def[symmetric] demo_first_cooldown_buy)
       (simp add: demo_buy_def is_primary_buy_def)
  have r': "\<forall>t\<in>set (demo_setup @ [demo_buy 20 1 7]).
        is_primary_buy 1 20 t \<longrightarrow> 0 < timestamp t \<and> timestamp t < 2 ^ 64"
    by (simp add: demo_defs is_primary_buy_def)
  have c': "walletCooldown (events (eventRegistry demo_cooled) 1) = 60"
    by (simp add: demo_cooled_facts demo_events)
  note a = cooldown_separates[OF refl refl refl, where txs = demo_cooldown_run and ro = 31
      and no = 32 and mo = 33 and ma = 50 and eid = 1 and w = 20]
  note b = cooldown_separates[OF demo_cooled_def refl refl, where eid = 1 and w = 20 and now = 30
      and paid = 100 and acc = True]
  have 1: "sorted_wrt (\<lambda>a b. a + 60 \<le> b)
        (map timestamp (filter (is_primary_buy 1 20)
           (successes (deployed 31 32 33 50) demo_cooldown_run)))"
    using a[THEN conjunct1] c r by simp
  have 2: "lastBuyTs (buyerState (ticketMarket demo_cooled) 1 20) = 7
     \<and> (\<exists>e. buyPrimary demo_cooled 20 100 30 True 1 = Inl (e, demo_cooled))
     \<and> apply_tx demo_cooled \<lparr>sender = 20, timestamp = 30, call = BuyPrimary 1 100 True\<rparr> = demo_cooled"
  proof -
    have ne: "filter (is_primary_buy 1 20)
        (successes (deployed 31 32 33 50) (demo_setup @ [demo_buy 20 1 7])) \<noteq> []"
      using l' by auto
    from b[THEN conjunct2, THEN conjunct2] c' r' l' ne show ?thesis by simp
  qed
  from c l 1 l' 2 show ?thesis by blast
qed

end
